theory Spec2Isabelle
  imports Main "HOL-Library.Word"
begin

unbundle bit_operations_syntax

text \<open>
  A model of opsocket.js, a WebSocket client for Node: the queue of received chunks
  (\<open>BufferList\<close>), the decoder of inbound frames (\<open>BaseFrame.push\<close>), the encoder
  of outbound frames (\<open>OutboundFrame\<close>, \<open>FrameMask\<close>), \<open>CloseFrame\<close>, and of the
  class \<open>WebSocket\<close> the validation of the handshake, the validation of close codes
  and \<open>abort\<close>.

  A function of the source is a function here, under its own name (with a prime where
  the name is taken: \<open>write'\<close>, \<open>take'\<close>, \<open>length'\<close>, \<open>mask'\<close>). What it changes, it
  returns; what it throws is the \<open>Inl\<close> of its result. The definitions come first,
  the properties after them.
\<close>

section \<open>src/Constants.js\<close>

type_synonym byte = "8 word"

abbreviation (input) BinaryHelpers_OPCode :: byte where "BinaryHelpers_OPCode \<equiv> 0x0F"
abbreviation (input) BinaryHelpers_Length :: byte where "BinaryHelpers_Length \<equiv> 0x7F"
abbreviation (input) BinaryHelpers_Fin :: byte where "BinaryHelpers_Fin \<equiv> 0x80"

abbreviation (input) OPCodes_Continuation :: nat where "OPCodes_Continuation \<equiv> 0x0"
abbreviation (input) OPCodes_TextMessage :: nat where "OPCodes_TextMessage \<equiv> 0x1"
abbreviation (input) OPCodes_BinaryMessage :: nat where "OPCodes_BinaryMessage \<equiv> 0x2"
abbreviation (input) OPCodes_SocketClose :: nat where "OPCodes_SocketClose \<equiv> 0x8"
abbreviation (input) OPCodes_Ping :: nat where "OPCodes_Ping \<equiv> 0x9"
abbreviation (input) OPCodes_Pong :: nat where "OPCodes_Pong \<equiv> 0xA"

datatype ConnectionStates = Open | Handshaking | Closing | Closed

datatype FrameStates = ParsingHeader | Awaiting16Bit | Awaiting64Bit | AwaitingPayload | Finalized

fun DefaultCloseDescriptions :: "nat \<Rightarrow> string option" where
  "DefaultCloseDescriptions code =
     (if code = 1000 then Some ''The WebSocket Connection was Marked as Idle or The Reason was Fulfilled.''
      else if code = 1001 then Some ''The WebSocket Server is Restarting or Offline.''
      else if code = 1002 then Some ''WebSocket Protocol Violation.''
      else if code = 1003 then Some ''The WebSocket Server has Encountered an Unsupported Data Type.''
      else if code = 1004 then Some ''Reserved Status Code.''
      else if code = 1005 then Some ''The WebSocket Connection was Closed without a Status Code.''
      else if code = 1006 then Some ''Cannot Reach The WebSocket Server or The Connection was Reset.''
      else if code = 1007 then Some ''The Data Type Header Does not Match The Actual Data Type.''
      else if code = 1008 then Some ''WebSocket Server Policy Violation.''
      else if code = 1009 then Some ''The Message was Too Long to Process.''
      else if code = 1010 then Some ''Invalid Extensions.''
      else if code = 1011 then Some ''Unknown Hard Internal WebSocket Server Error.''
      else if code = 1012 then Some ''The WebSocket Server is Restarting.''
      else if code = 1013 then Some ''The WebSocket Server is Overloaded. Retry to Connect Later.''
      else if code = 1014 then Some ''The WebSocket Server is Unable to Estabilish a Connection due to its Upstream Server Returning Invalid Response.''
      else if code = 1015 then Some ''Failed to Perform The TLS Handshake.''
      else None)"

abbreviation (input) Byte :: int where "Byte \<equiv> 255"

definition HeaderConcatNonce :: string where
  "HeaderConcatNonce = ''258EAFA5-E914-47DA-95CA-C5AB0DC85B11''"


section \<open>Buffers\<close>

text \<open>
  A Node \<open>Buffer\<close> is a byte array. A \<open>Buffer\<close> value of the model is the content of
  the array; a function of the source that writes into a buffer returns the new content.
\<close>

type_synonym Buffer = "byte list"

text \<open>
  \<open>Buffer.allocUnsafe(size)\<close> returns memory that is not initialised: the content is
  whatever \<open>mem\<close> holds, and \<open>mem\<close> is a parameter of every function that allocates.
\<close>

definition allocUnsafe :: "nat \<Rightarrow> (nat \<Rightarrow> byte) \<Rightarrow> Buffer" where
  "allocUnsafe n mem = map mem [0..<n]"

text \<open>
  \<open>source.copy(target, targetStart, sourceStart, sourceEnd)\<close> of Node: nothing is copied
  when \<open>targetStart\<close> is not inside the target or the source range is empty; otherwise
  the range is cut to what the source holds and to what fits in the target. (Node raises
  when \<open>sourceStart\<close> exceeds the length of the source; both callers below pass
  \<open>Math.max(0, start - ix)\<close> under the guard \<open>start < ix + buffer.length\<close>, which is
  below that length.) The result is the new content of \<open>target\<close>.
\<close>

definition Buffer_copy :: "Buffer \<Rightarrow> Buffer \<Rightarrow> nat \<Rightarrow> nat \<Rightarrow> nat \<Rightarrow> Buffer" where
  "Buffer_copy source target targetStart sourceStart sourceEnd =
     (if targetStart \<ge> length target \<or> sourceStart \<ge> sourceEnd then target
      else let nb = min (min (sourceEnd - sourceStart) (length target - targetStart))
                        (length source - sourceStart)
           in take targetStart target @ take nb (drop sourceStart source)
              @ drop (targetStart + nb) target)"

datatype error =
    InsufficientSpace  \<comment> \<open>\<open>Error("Insufficient space available in target Buffer.")\<close>\<close>
  | RangeError         \<comment> \<open>Node's range errors: a read or write outside a buffer, a negative size\<close>
  | TypeError          \<comment> \<open>a method called on \<open>undefined\<close>\<close>

text \<open>\<open>buf[i]\<close> is \<open>undefined\<close> outside the buffer.\<close>

definition at_index :: "Buffer \<Rightarrow> nat \<Rightarrow> byte option" where
  "at_index buf i = (if i < length buf then Some (buf ! i) else None)"

text \<open>\<open>x & m\<close> for a byte or \<open>undefined\<close> (which \<open>&\<close> reads as 0).\<close>

fun band :: "byte option \<Rightarrow> byte \<Rightarrow> nat" where
  "band None m = 0"
| "band (Some b) m = unat (b AND m)"

definition readUInt16BE :: "Buffer \<Rightarrow> nat \<Rightarrow> error + nat" where
  "readUInt16BE buf off =
     (if off + 2 > length buf then Inl RangeError
      else Inr (unat (buf ! off) * 2 ^ 8 + unat (buf ! (off + 1))))"

definition readUInt32BE :: "Buffer \<Rightarrow> nat \<Rightarrow> error + nat" where
  "readUInt32BE buf off =
     (if off + 4 > length buf then Inl RangeError
      else Inr (unat (buf ! off) * 2 ^ 24 + unat (buf ! (off + 1)) * 2 ^ 16
                + unat (buf ! (off + 2)) * 2 ^ 8 + unat (buf ! (off + 3))))"


text \<open>\<open>buf.writeUInt16BE(value, off)\<close>; the result is the new content of \<open>buf\<close>.\<close>

definition writeUInt16BE :: "Buffer \<Rightarrow> nat \<Rightarrow> nat \<Rightarrow> error + Buffer" where
  "writeUInt16BE buf v off =
     (if v > 65535 \<or> off + 2 > length buf then Inl RangeError
      else Inr (buf[off := of_nat (v div 2 ^ 8), off + 1 := of_nat v]))"

text \<open>
  \<open>Buffer.from(string)\<close>: the UTF-8 bytes of the string. A character below 0x80 is
  one byte; one from 0x80 to 0xFF is the two bytes \<open>0xC0 | (c >> 6)\<close> and
  \<open>0x80 | (c & 0x3F)\<close>. (A \<open>string\<close> here has no character above 0xFF.)
\<close>

definition Buffer_from :: "string \<Rightarrow> Buffer" where
  "Buffer_from s =
     concat (map (\<lambda>c. let n = (of_char c :: nat)
                       in if n < 128 then [of_nat n]
                          else [of_nat (192 + n div 64), of_nat (128 + n mod 64)]) s)"


section \<open>src/Utilities/BufferList.js\<close>

text \<open>
  The four variables \<open>head\<close>, \<open>last\<close>, \<open>length\<close> and \<open>offset\<close> are declared with
  \<open>let\<close> at the top of the module, outside the class: there is one copy of them, and
  every method of every \<open>BufferList\<close> object reads and writes that copy.

  The chain of nodes that starts at \<open>head\<close> is the list \<open>bl_head\<close> of its buffers; the
  node \<open>{ next : null, buffer : null }\<close> is the empty list. Whenever \<open>head.buffer\<close> is
  not null, \<open>last\<close> is the final node of that chain (\<open>write\<close> sets it to the node it
  adds, \<open>advance\<close> replaces it only when the chain is used up), so that linking a node
  behind \<open>last\<close> is appending to the list.
\<close>

record BufferList_module =
  bl_head :: "Buffer list"   \<comment> \<open>\<open>head\<close> (and \<open>last\<close>)\<close>
  bl_length :: int           \<comment> \<open>\<open>length\<close>\<close>
  bl_offset :: nat           \<comment> \<open>\<open>offset\<close>\<close>

definition module_init :: BufferList_module where
  "module_init = \<lparr>bl_head = [], bl_length = 0, bl_offset = 0\<rparr>"

text \<open>
  The class has no constructor and no field: an object is only an identity. Every
  method takes its \<open>this\<close> and the module's variables.
\<close>

datatype BufferList = BufferList nat

text \<open>\<open>new BufferList()\<close>: the class has no constructor, the module's variables stay.\<close>

definition new_BufferList :: "nat \<Rightarrow> BufferList_module \<Rightarrow> BufferList \<times> BufferList_module" where
  "new_BufferList identity m = (BufferList identity, m)"

definition get_length :: "BufferList \<Rightarrow> BufferList_module \<Rightarrow> int" where
  "get_length this m = bl_length m"

definition write' :: "BufferList \<Rightarrow> Buffer \<Rightarrow> BufferList_module \<Rightarrow> bool \<times> BufferList_module" where
  "write' this buf m =
     (True, m\<lparr>bl_head := (if bl_head m = [] then [buf] else bl_head m @ [buf]),
              bl_length := bl_length m + int (length buf)\<rparr>)"

text \<open>
  \<open>forEach(fn)\<close>: the callbacks of the source are closures over local variables; here
  \<open>fn\<close> takes the buffer and those variables and returns its result with their new
  values. The first buffer handed to \<open>fn\<close> is \<open>head.buffer.slice(offset)\<close>.
\<close>

fun forEach_loop :: "(Buffer \<Rightarrow> 'a \<Rightarrow> bool \<times> 'a) \<Rightarrow> Buffer list \<Rightarrow> 'a \<Rightarrow> 'a" where
  "forEach_loop fn [] vars = vars"
| "forEach_loop fn (buffer # next) vars =
     (case fn buffer vars of (r, vars') \<Rightarrow>
        if r then vars' else forEach_loop fn next vars')"

definition forEach ::
  "BufferList \<Rightarrow> (Buffer \<Rightarrow> 'a \<Rightarrow> bool \<times> 'a) \<Rightarrow> 'a \<Rightarrow> BufferList_module \<Rightarrow> 'a" where
  "forEach this fn vars m =
     (case bl_head m of
        [] \<Rightarrow> vars
      | buffer # next \<Rightarrow>
          if int (length buffer) - int (bl_offset m) \<le> 0 then vars
          else forEach_loop fn (drop (bl_offset m) buffer # next) vars)"

text \<open>
  The callback of \<open>join\<close>; its variables are \<open>big\<close> and \<open>ix\<close>. On naturals
  \<open>ix - start\<close> is already \<open>Math.max(0, ix - start)\<close>.
\<close>

definition join_fn :: "nat \<Rightarrow> nat \<Rightarrow> Buffer \<Rightarrow> Buffer \<times> nat \<Rightarrow> bool \<times> Buffer \<times> nat" where
  "join_fn start end buffer = (\<lambda>(big, ix).
     let big' = (if start < ix + length buffer \<and> ix < end
                 then Buffer_copy buffer big (max 0 (ix - start)) (max 0 (start - ix))
                        (min (length buffer) (end - ix))
                 else big);
         ix' = ix + length buffer
     in (ix' > end, big', ix'))"

definition join ::
  "BufferList \<Rightarrow> nat \<Rightarrow> nat \<Rightarrow> BufferList_module \<Rightarrow> (nat \<Rightarrow> byte) \<Rightarrow> error + Buffer" where
  "join this start end m mem =
     (if bl_head m = [] then Inr []
      else if end < start then Inl RangeError
      else Inr (fst (forEach this (join_fn start end) (allocUnsafe (end - start) mem, 0) m)))"

text \<open>
  \<open>joinInto\<close> writes into \<open>targetBuffer\<close> in place; the model returns the content of
  \<open>targetBuffer\<close> after the call (the callers drop the value the source returns).
\<close>

definition joinInto_fn ::
  "nat \<Rightarrow> nat \<Rightarrow> nat \<Rightarrow> Buffer \<Rightarrow> Buffer \<times> nat \<Rightarrow> bool \<times> Buffer \<times> nat" where
  "joinInto_fn targetStart sourceStart sourceEnd buffer = (\<lambda>(big, ix).
     let big' = (if sourceStart < ix + length buffer \<and> ix < sourceEnd
                 then Buffer_copy buffer big
                        (max targetStart (targetStart + ix - sourceStart))
                        (max 0 (sourceStart - ix))
                        (min (length buffer) (sourceEnd - ix))
                 else big);
         ix' = ix + length buffer
     in (ix' > sourceEnd, big', ix'))"

definition joinInto ::
  "BufferList \<Rightarrow> Buffer \<Rightarrow> nat \<Rightarrow> nat \<Rightarrow> nat \<Rightarrow> BufferList_module \<Rightarrow> error + Buffer" where
  "joinInto this targetBuffer targetStart sourceStart sourceEnd m =
     (if bl_head m = [] then Inr targetBuffer
      else if int (length targetBuffer) - int targetStart < int sourceEnd - int sourceStart
      then Inl InsufficientSpace
      else Inr (fst (forEach this (joinInto_fn targetStart sourceStart sourceEnd)
                       (targetBuffer, 0) m)))"

fun advance_loop :: "Buffer list \<Rightarrow> nat \<Rightarrow> Buffer list \<times> nat" where
  "advance_loop [] off = ([], off)"
| "advance_loop (buffer # next) off =
     (if off \<ge> length buffer then advance_loop next (off - length buffer)
      else (buffer # next, off))"

definition advance :: "BufferList \<Rightarrow> nat \<Rightarrow> BufferList_module \<Rightarrow> BufferList_module" where
  "advance this n m =
     (case advance_loop (bl_head m) (bl_offset m + n) of (h, off) \<Rightarrow>
        m\<lparr>bl_head := h, bl_offset := off, bl_length := bl_length m - int n\<rparr>)"

definition take' ::
  "BufferList \<Rightarrow> nat \<Rightarrow> BufferList_module \<Rightarrow> (nat \<Rightarrow> byte) \<Rightarrow> error + Buffer" where
  "take' this n m mem = join this 0 n m mem"


section \<open>src/Frames/Frame.js\<close>

text \<open>
  The constructor sets \<open>frameHeader\<close>, \<open>state\<close>, \<open>firstByte\<close> and \<open>secondByte\<close>.
  \<open>fin\<close>, \<open>opcode\<close> and \<open>length\<close> do not exist before \<open>push\<close> has parsed the first two
  bytes, and \<open>push\<close> does not read them before it has set them; the values the model
  gives them until then stand for \<open>undefined\<close>.
\<close>

record BaseFrame =
  frameHeader :: Buffer
  state :: FrameStates
  firstByte :: "byte option"
  secondByte :: "byte option"
  fin :: bool
  opcode :: nat
  length' :: nat
  data :: "Buffer option"

definition new_BaseFrame :: "Buffer \<Rightarrow> BaseFrame" where
  "new_BaseFrame hdr =
     \<lparr>frameHeader = hdr, state = ParsingHeader, firstByte = None, secondByte = None,
      fin = False, opcode = 0, length' = 0, data = None\<rparr>"

text \<open>
  \<open>push\<close> is three \<open>if\<close> blocks in a row. Each block of the model returns \<open>Some r\<close>
  where the source returns \<open>r\<close>, and \<open>None\<close> where control falls through to the next
  block.
\<close>

definition push_ParsingHeader ::
  "BaseFrame \<Rightarrow> BufferList \<Rightarrow> BufferList_module
     \<Rightarrow> error + (bool option \<times> BaseFrame \<times> BufferList_module)" where
  "push_ParsingHeader f bufferList m =
     (if state f = ParsingHeader then
        if get_length bufferList m \<le> 1 then Inr (Some False, f, m)
        else case joinInto bufferList (frameHeader f) 0 0 2 m of
               Inl e \<Rightarrow> Inl e
             | Inr hdr \<Rightarrow>
                 let m' = advance bufferList 2 m;
                     fb = at_index hdr 0;
                     sb = at_index hdr 1;
                     len = band sb BinaryHelpers_Length
                 in Inr (None,
                         f\<lparr>frameHeader := hdr, firstByte := fb, secondByte := sb,
                           fin := (band fb BinaryHelpers_Fin \<noteq> 0),
                           opcode := band fb BinaryHelpers_OPCode,
                           length' := len,
                           state := (if len = 126 then Awaiting16Bit
                                     else if len = 127 then Awaiting64Bit
                                     else AwaitingPayload)\<rparr>,
                         m')
      else Inr (None, f, m))"

definition push_ExtendedLength ::
  "BaseFrame \<Rightarrow> BufferList \<Rightarrow> BufferList_module
     \<Rightarrow> error + (bool option \<times> BaseFrame \<times> BufferList_module)" where
  "push_ExtendedLength f bufferList m =
     (if state f = Awaiting16Bit then
        if get_length bufferList m \<le> 1 then Inr (Some False, f, m)
        else case joinInto bufferList (frameHeader f) 2 0 2 m of
               Inl e \<Rightarrow> Inl e
             | Inr hdr \<Rightarrow>
                 (case readUInt16BE hdr 2 of
                    Inl e \<Rightarrow> Inl e
                  | Inr len \<Rightarrow>
                      Inr (None,
                           f\<lparr>frameHeader := hdr, length' := len, state := AwaitingPayload\<rparr>,
                           advance bufferList 2 m))
      else if state f = Awaiting64Bit then
        if get_length bufferList m \<le> 7 then Inr (Some False, f, m)
        else case joinInto bufferList (frameHeader f) 2 0 8 m of
               Inl e \<Rightarrow> Inl e
             | Inr hdr \<Rightarrow>
                 (case readUInt32BE hdr 6 of
                    Inl e \<Rightarrow> Inl e
                  | Inr len \<Rightarrow>
                      Inr (None,
                           f\<lparr>frameHeader := hdr, length' := len, state := AwaitingPayload\<rparr>,
                           advance bufferList 8 m))
      else Inr (None, f, m))"

definition success :: "BaseFrame \<Rightarrow> bool \<times> BaseFrame" where
  "success f = (True, f\<lparr>state := Finalized\<rparr>)"

definition push_AwaitingPayload ::
  "BaseFrame \<Rightarrow> BufferList \<Rightarrow> BufferList_module \<Rightarrow> (nat \<Rightarrow> byte)
     \<Rightarrow> error + (bool \<times> BaseFrame \<times> BufferList_module)" where
  "push_AwaitingPayload f bufferList m mem =
     (if state f = AwaitingPayload then
        let f1 = (if length' f = 0 then snd (success (f\<lparr>data := Some []\<rparr>)) else f)
        in if get_length bufferList m < int (length' f1) then Inr (False, f1, m)
           else case take' bufferList (length' f1) m mem of
                  Inl e \<Rightarrow> Inl e
                | Inr d \<Rightarrow>
                    (case success (f1\<lparr>data := Some d\<rparr>) of (r, f2) \<Rightarrow>
                       Inr (r, f2, advance bufferList (length' f1) m))
      else Inr (False, f, m))"

definition push ::
  "BaseFrame \<Rightarrow> BufferList \<Rightarrow> BufferList_module \<Rightarrow> (nat \<Rightarrow> byte)
     \<Rightarrow> error + (bool \<times> BaseFrame \<times> BufferList_module)" where
  "push f bufferList m mem =
     (case push_ParsingHeader f bufferList m of
        Inl e \<Rightarrow> Inl e
      | Inr (Some r, f1, m1) \<Rightarrow> Inr (r, f1, m1)
      | Inr (None, f1, m1) \<Rightarrow>
          (case push_ExtendedLength f1 bufferList m1 of
             Inl e \<Rightarrow> Inl e
           | Inr (Some r, f2, m2) \<Rightarrow> Inr (r, f2, m2)
           | Inr (None, f2, m2) \<Rightarrow> push_AwaitingPayload f2 bufferList m2 mem))"


section \<open>src/Utilities/FrameMask.js\<close>

text \<open>
  \<open>mask[i]\<close> of a JavaScript array of byte values; outside the array it is
  \<open>undefined\<close>, which \<open>^\<close> reads as 0.
\<close>

definition mask_at :: "byte list \<Rightarrow> nat \<Rightarrow> byte" where
  "mask_at mask' i = (if i < length mask' then mask' ! i else 0)"

text \<open>
  The \<open>for\<close> loop of \<open>FrameMask\<close>, from \<open>index\<close> on. It reads and writes
  \<open>payload[offset + index]\<close> for \<open>index < payload.length - offset\<close> only, inside
  the buffer.
\<close>

function FrameMask_loop :: "Buffer \<Rightarrow> byte list \<Rightarrow> nat \<Rightarrow> nat \<Rightarrow> nat \<Rightarrow> Buffer" where
  "FrameMask_loop payload mask' offset' i maskUntil =
     (if i < maskUntil
      then FrameMask_loop
             (payload[offset' + i := payload ! (offset' + i) XOR mask_at mask' (i mod 4)])
             mask' offset' (i + 1) maskUntil
      else payload)"
  by pat_completeness auto
termination
  by (relation "measure (\<lambda>(payload, mask', offset', i, maskUntil). maskUntil - i)") auto

declare FrameMask_loop.simps [simp del]

definition FrameMask :: "Buffer \<Rightarrow> byte list \<Rightarrow> nat \<Rightarrow> Buffer" where
  "FrameMask payload mask' offset' = FrameMask_loop payload mask' offset' 0 (length payload - offset')"


section \<open>src/Frames/DataFrame.js: \<open>OutboundFrame\<close>\<close>

text \<open>
  \<open>~~x\<close> and the operands of \<open>&\<close> and \<open>|\<close> are numbers read as 32-bit signed
  integers.
\<close>

definition ToInt32 :: "int \<Rightarrow> int" where
  "ToInt32 x = sint (word_of_int x :: 32 word)"

text \<open>
  \<open>~~(length / k)\<close>. The divisors of the source are powers of two, so the floating
  point quotient is exact and its integer part is \<open>length div k\<close>. (The literal
  \<open>72057594037927940\<close> of the source is not a floating point number: it reads as the
  nearest one, \<open>72057594037927936 = 2 ^ 56\<close>.)
\<close>

definition tilde_tilde_div :: "nat \<Rightarrow> nat \<Rightarrow> int" where
  "tilde_tilde_div len k = ToInt32 (int (len div k))"

text \<open>\<open>buf[i] = v\<close> on a buffer stores \<open>v\<close> modulo 256.\<close>

definition store :: "Buffer \<Rightarrow> nat \<Rightarrow> int \<Rightarrow> Buffer" where
  "store buf i v = buf[i := word_of_int v]"

record OutboundFrame =
  frame :: Buffer
  header :: nat
  offset :: nat
  mask' :: "byte list option"  \<comment> \<open>\<open>mask\<close>, which \<open>prepare\<close> sets\<close>

text \<open>
  The constructor, for \<open>data\<close> that is a \<open>Buffer\<close> already. \<open>closeCode\<close> is 1005
  when the caller gives none.
\<close>

definition new_OutboundFrame ::
  "nat \<Rightarrow> Buffer \<Rightarrow> nat \<Rightarrow> (nat \<Rightarrow> byte) \<Rightarrow> error + OutboundFrame" where
  "new_OutboundFrame opcode' data' closeCode mem =
     (let isClose = (opcode' = OPCodes_SocketClose);
          len = length data' + (if isClose then 2 else 0);
          header' = (if len \<le> 125 then 2 else if len \<le> 65535 then 4 else 10);
          offset' = header' + 4;
          frame0 = store (allocUnsafe (len + offset') mem) 0 (128 OR ToInt32 (int opcode'));
          frame1 =
            (if len \<le> 125 then store frame0 1 (128 OR ToInt32 (int len))
             else if len \<le> 65535 then
               store (store (store frame0 1 254) 2 (tilde_tilde_div len 256))
                 3 (ToInt32 (int len) AND Byte)
             else
               store (store (store (store (store (store (store (store (store frame0
                 1 255)
                 2 (tilde_tilde_div len 72057594037927936 AND Byte))
                 3 (tilde_tilde_div len 281474976710656 AND Byte))
                 4 (tilde_tilde_div len 1099511627776 AND Byte))
                 5 (tilde_tilde_div len 4294967296 AND Byte))
                 6 (tilde_tilde_div len 16777216 AND Byte))
                 7 (tilde_tilde_div len 65536 AND Byte))
                 8 (tilde_tilde_div len 256 AND Byte))
                 9 (ToInt32 (int len) AND Byte))
      in case (if isClose then writeUInt16BE (allocUnsafe 2 mem @ data') closeCode 0
               else Inr data') of
           Inl e \<Rightarrow> Inl e
         | Inr data'' \<Rightarrow>
             Inr \<lparr>frame = Buffer_copy data'' frame1 offset' 0 (length data''),
                  header = header', offset = offset', mask' = None\<rparr>)"

text \<open>
  \<open>prepare\<close>: the four values \<open>~~(Math.random() * 256)\<close> are the bytes \<open>r0\<close> to
  \<open>r3\<close>. The result is the buffer that is written to the socket, and the object.
\<close>

definition prepare ::
  "OutboundFrame \<Rightarrow> byte \<Rightarrow> byte \<Rightarrow> byte \<Rightarrow> byte \<Rightarrow> Buffer \<times> OutboundFrame" where
  "prepare this r0 r1 r2 r3 =
     (let m = [r0, r1, r2, r3];
          keyed = Buffer_copy m (frame this) (header this) 0 (length m);
          masked = FrameMask keyed m (offset this)
      in (masked, this\<lparr>mask' := Some m, frame := masked\<rparr>))"


text \<open>
  What \<open>WebSocket.write\<close> hands to the socket: \<open>new OutboundFrame(opcode, data,
  closeCode).prepare()\<close>.
\<close>

definition outbound_bytes ::
  "nat \<Rightarrow> Buffer \<Rightarrow> nat \<Rightarrow> (nat \<Rightarrow> byte) \<Rightarrow> byte \<Rightarrow> byte \<Rightarrow> byte \<Rightarrow> byte \<Rightarrow> error + Buffer" where
  "outbound_bytes opcode' data' closeCode mem r0 r1 r2 r3 =
     (case new_OutboundFrame opcode' data' closeCode mem of
        Inl e \<Rightarrow> Inl e
      | Inr out \<Rightarrow> Inr (fst (prepare out r0 r1 r2 r3)))"


section \<open>src/Frames/CloseFrame.js\<close>

record CloseFrame =
  code :: nat
  reason :: Buffer

text \<open>
  The class that \<open>WebSocket.js\<close> imports (\<open>import { CloseFrame } from
  './Frames/CloseFrame.js'\<close>) and constructs from a received frame whose opcode is
  \<open>SocketClose\<close>: \<open>this.code = frame.data.readUInt16BE(0) || 1005\<close> and
  \<open>this.reason = frame.data.slice(2)\<close>. \<open>readUInt16BE\<close> comes first: on a buffer of
  fewer than two bytes it throws a \<open>RangeError\<close>, and \<open>|| 1005\<close> replaces the code 0.
\<close>

definition new_CloseFrame :: "BaseFrame \<Rightarrow> error + CloseFrame" where
  "new_CloseFrame frame' =
     (case data frame' of
        None \<Rightarrow> Inl TypeError
      | Some d \<Rightarrow>
          (case readUInt16BE d 0 of
             Inl e \<Rightarrow> Inl e
           | Inr c \<Rightarrow> Inr \<lparr>code = (if c = 0 then 1005 else c), reason = drop 2 d\<rparr>))"

text \<open>
  A second copy of the class stands behind \<open>BaseFrame\<close> in src/Frames/Frame.js (lines
  76 to 81), not in the file that \<open>WebSocket.js\<close> imports. It tests the length before it
  reads:
  \<open>frame.length < 2 ? 1005 : frame.data.readUInt16BE(0)\<close>.
\<close>

definition new_CloseFrame_Frame_js :: "BaseFrame \<Rightarrow> error + CloseFrame" where
  "new_CloseFrame_Frame_js frame' =
     (case data frame' of
        None \<Rightarrow> Inl TypeError
      | Some d \<Rightarrow>
          (case (if length' frame' < 2 then Inr 1005 else readUInt16BE d 0) of
             Inl e \<Rightarrow> Inl e
           | Inr c \<Rightarrow> Inr \<lparr>code = c, reason = drop 2 d\<rparr>))"


section \<open>Node's \<open>crypto\<close>: SHA-1 and base64\<close>

text \<open>
  \<open>createHash('sha1')\<close>, \<open>update(text)\<close> and \<open>digest('base64')\<close> are Node's, not this
  repository's. They are modelled by what they compute: SHA-1 (FIPS 180-4) of the bytes
  of the text, in base64 (RFC 4648). Bytes and 32-bit words are integers here, with the
  reduction modulo \<open>2 ^ 32\<close> written out, so that the kernel can evaluate a hash.
\<close>

definition add32 :: "int \<Rightarrow> int \<Rightarrow> int" where
  "add32 a b = (a + b) mod 4294967296"

definition rotl32 :: "nat \<Rightarrow> int \<Rightarrow> int" where
  "rotl32 n a = (a * 2 ^ n) mod 4294967296 + a div 2 ^ (32 - n)"

definition not32 :: "int \<Rightarrow> int" where
  "not32 a = 4294967295 - a"

fun chunks_of :: "nat \<Rightarrow> nat \<Rightarrow> 'a list \<Rightarrow> 'a list list" where
  "chunks_of 0 n xs = []"
| "chunks_of (Suc k) n xs = take n xs # chunks_of k n (drop n xs)"

definition be_int :: "int list \<Rightarrow> int" where
  "be_int bs = foldl (\<lambda>acc b. acc * 256 + b) 0 bs"

definition sha1_pad :: "int list \<Rightarrow> int list" where
  "sha1_pad msg =
     (let l = length msg;
          k = (119 - l mod 64) mod 64;
          bits = 8 * int l
      in msg @ [128] @ replicate k 0
         @ map (\<lambda>i. (bits div 2 ^ (8 * (7 - i))) mod 256) [0..<8])"

fun sha1_extend :: "nat \<Rightarrow> int list \<Rightarrow> int list" where
  "sha1_extend 0 ws = ws"
| "sha1_extend (Suc k) ws =
     (let n = length ws
      in sha1_extend k
           (ws @ [rotl32 1 (ws ! (n - 3) XOR ws ! (n - 8) XOR ws ! (n - 14) XOR ws ! (n - 16))]))"

definition sha1_round ::
  "nat \<Rightarrow> int \<Rightarrow> int \<times> int \<times> int \<times> int \<times> int \<Rightarrow> int \<times> int \<times> int \<times> int \<times> int" where
  "sha1_round i w = (\<lambda>(a, b, c, d, e).
     let (f, k) =
           (if i < 20 then ((b AND c) OR (not32 b AND d), 0x5A827999)
            else if i < 40 then (b XOR c XOR d, 0x6ED9EBA1)
            else if i < 60 then ((b AND c) OR (b AND d) OR (c AND d), 0x8F1BBCDC)
            else (b XOR c XOR d, 0xCA62C1D6))
     in (add32 (add32 (add32 (add32 (rotl32 5 a) f) e) k) w, a, rotl32 30 b, c, d))"

definition sha1_block :: "int \<times> int \<times> int \<times> int \<times> int \<Rightarrow> int list \<Rightarrow> int \<times> int \<times> int \<times> int \<times> int" where
  "sha1_block h block =
     (let ws = sha1_extend 64 (map be_int (chunks_of 16 4 block));
          r = foldl (\<lambda>s (i, w). sha1_round i w s) h (zip [0..<80] ws)
      in case (h, r) of ((h0, h1, h2, h3, h4), (a, b, c, d, e)) \<Rightarrow>
           (add32 h0 a, add32 h1 b, add32 h2 c, add32 h3 d, add32 h4 e))"

definition bytes32 :: "int \<Rightarrow> int list" where
  "bytes32 w = [w div 16777216, (w div 65536) mod 256, (w div 256) mod 256, w mod 256]"

definition sha1 :: "int list \<Rightarrow> int list" where
  "sha1 msg =
     (let p = sha1_pad msg
      in case foldl sha1_block (0x67452301, 0xEFCDAB89, 0x98BADCFE, 0x10325476, 0xC3D2E1F0)
                (chunks_of (length p div 64) 64 p) of
           (h0, h1, h2, h3, h4) \<Rightarrow> bytes32 h0 @ bytes32 h1 @ bytes32 h2 @ bytes32 h3 @ bytes32 h4)"

definition base64_alphabet :: string where
  "base64_alphabet = ''ABCDEFGHIJKLMNOPQRSTUVWXYZabcdefghijklmnopqrstuvwxyz0123456789+/''"

fun base64 :: "int list \<Rightarrow> string" where
  "base64 (a # b # c # rest) =
     [base64_alphabet ! nat (a div 4),
      base64_alphabet ! nat ((a mod 4) * 16 + b div 16),
      base64_alphabet ! nat ((b mod 16) * 4 + c div 64),
      base64_alphabet ! nat (c mod 64)] @ base64 rest"
| "base64 [a, b] =
     [base64_alphabet ! nat (a div 4),
      base64_alphabet ! nat ((a mod 4) * 16 + b div 16),
      base64_alphabet ! nat ((b mod 16) * 4),
      CHR ''='']"
| "base64 [a] =
     [base64_alphabet ! nat (a div 4),
      base64_alphabet ! nat ((a mod 4) * 16),
      CHR ''='', CHR ''='']"
| "base64 [] = []"

definition sha1_base64 :: "string \<Rightarrow> string" where
  "sha1_base64 s = base64 (sha1 (map (\<lambda>c. of_char c) s))"

section \<open>src/WebSocket.js\<close>

text \<open>
  The class \<open>WebSocket\<close> of version 2 (the second copy in src/unnamed/part_000, lines
  484 to 1057), as far as the handshake validation, the close codes and \<open>abort\<close> go.

  A connection is the record of the fields these methods read and write. What a
  method does to the outside (an event dispatched, a promise settled, a socket ended)
  is appended to \<open>effects\<close>, in order.
\<close>

record tls_socket =
  ended :: bool     \<comment> \<open>the property \<open>ended\<close>; a socket has none before \<open>endSocket\<close> sets it\<close>
  writable :: bool

record nonceData' =
  initial :: string
  responseExpected :: string
  responseActual :: "string option"

datatype effect =
    dispatchEvent_open
  | dispatchEvent_close nat string
  | dispatchEvent_failure string
  | onClose_CloseError nat string   \<comment> \<open>\<open>onClose?.(new CloseError(code, reason))\<close>\<close>
  | onClose_SocketError string      \<comment> \<open>\<open>onClose?.(new SocketError(reason))\<close>\<close>
  | closeReject_call string
  | request_destroy
  | tls_end

record WebSocket =
  status :: ConnectionStates
  sockets_tls :: "tls_socket option"
  sockets_request :: bool             \<comment> \<open>whether \<open>sockets.request\<close> is there\<close>
  nonceData :: nonceData'
  options_asyncIterator :: bool
  timers_open :: bool                 \<comment> \<open>whether the timer is running\<close>
  timers_close :: bool
  closeResolve :: bool                \<comment> \<open>whether the property is there\<close>
  closeReject :: bool
  effects :: "effect list"

text \<open>The constructor, with \<open>options.asyncIterator\<close>.\<close>

definition new_WebSocket :: "bool \<Rightarrow> WebSocket" where
  "new_WebSocket asyncIterator =
     \<lparr>status = Closed, sockets_tls = None, sockets_request = False,
      nonceData = \<lparr>initial = [], responseExpected = [], responseActual = Some []\<rparr>,
      options_asyncIterator = asyncIterator, timers_open = False, timers_close = False,
      closeResolve = False, closeReject = False, effects = []\<rparr>"

text \<open>
  \<open>open\<close>, up to the point where the request has been sent and the timer started, for
  a URL that is accepted and a request that does not throw: \<open>False\<close> is the promise
  rejected because the connection is not closed. \<open>nonce\<close> is what \<open>GenerateNonce()\<close>
  returns.
\<close>

definition open_request :: "string \<Rightarrow> WebSocket \<Rightarrow> bool \<times> WebSocket" where
  "open_request nonce this =
     (if status this \<noteq> Closed then (False, this)
      else (True,
            this\<lparr>nonceData := (nonceData this)\<lparr>initial := nonce\<rparr>,
                 sockets_tls := None,
                 status := Handshaking,
                 sockets_request := True,
                 timers_open := True\<rparr>))"

subsection \<open>\<open>validateHandshake\<close>\<close>

text \<open>
  The response of the server: its status code and its headers, a header that is absent
  being \<open>None\<close>.
\<close>

record response =
  statusCode :: int
  headers :: "(string \<Rightarrow> string option) option"

text \<open>
  \<open>toLowerCase\<close> on the one-byte characters a header value is made of: A to Z and the
  capital letters of Latin-1.
\<close>

definition toLowerCase :: "string \<Rightarrow> string" where
  "toLowerCase s =
     map (\<lambda>c. let n = (of_char c :: nat)
              in if (65 \<le> n \<and> n \<le> 90) \<or> (192 \<le> n \<and> n \<le> 222 \<and> n \<noteq> 215)
                 then char_of (n + 32) else c) s"

text \<open>
  The result is \<open>true\<close> or one of five messages:
  \<^item> \<open>UnexpectedStatusCode c\<close>: "Unexpected WebSocket Server Opening Handshake Status
    Code - c (101 Switching Protocols Expected)";
  \<^item> \<open>MissingHeaders\<close>: "Missing Headers in The Opening Handshake.";
  \<^item> \<open>ExpectedConnectionUpgrade\<close>: "Expected a "connection: upgrade" header in The
    Opening Handshake.";
  \<^item> \<open>ExpectedUpgradeWebsocket\<close>: "Expected a "upgrade: websocket" header in The
    Opening Handshake.";
  \<^item> \<open>NonceMismatch e a\<close>: "Expected "e" as The Response Nonce, But Received "a" in The
    Opening Handshake.".
\<close>

datatype handshake_message =
    UnexpectedStatusCode int
  | MissingHeaders
  | ExpectedConnectionUpgrade
  | ExpectedUpgradeWebsocket
  | NonceMismatch string "string option"

datatype handshake = HandshakeTrue | HandshakeMessage handshake_message

definition validateHandshake :: "response \<Rightarrow> WebSocket \<Rightarrow> handshake \<times> WebSocket" where
  "validateHandshake response' this =
     (if statusCode response' \<noteq> 101
      then (HandshakeMessage (UnexpectedStatusCode (statusCode response')), this)
      else case headers response' of
        None \<Rightarrow> (HandshakeMessage MissingHeaders, this)
      | Some hs \<Rightarrow>
          if map_option toLowerCase (hs ''connection'') \<noteq> Some ''upgrade''
          then (HandshakeMessage ExpectedConnectionUpgrade, this)
          else if map_option toLowerCase (hs ''upgrade'') \<noteq> Some ''websocket''
          then (HandshakeMessage ExpectedUpgradeWebsocket, this)
          else
            let expected = sha1_base64 (initial (nonceData this) @ HeaderConcatNonce);
                actual = hs ''sec-websocket-accept'';
                this' = this\<lparr>nonceData := (nonceData this)\<lparr>responseExpected := expected,
                                                         responseActual := actual\<rparr>\<rparr>
            in if actual \<noteq> Some expected
               then (HandshakeMessage (NonceMismatch expected actual), this')
               else (HandshakeTrue, this'))"

subsection \<open>\<open>abort\<close> and what it calls\<close>

definition performCloseState :: "WebSocket \<Rightarrow> WebSocket" where
  "performCloseState this =
     (let this' = (if sockets_request this
                   then this\<lparr>effects := effects this @ [request_destroy],
                             sockets_request := False\<rparr>
                   else this)
      in this'\<lparr>status := Closed\<rparr>)"

definition endSocket :: "WebSocket \<Rightarrow> bool \<times> WebSocket" where
  "endSocket this =
     (case sockets_tls this of
        None \<Rightarrow> (False, this)
      | Some tls \<Rightarrow>
          let this' = performCloseState this
          in (True, this'\<lparr>sockets_tls := Some (tls\<lparr>ended := True\<rparr>),
                         effects := effects this' @ [tls_end]\<rparr>))"

text \<open>
  \<open>emitClose\<close> and \<open>emitFailure\<close>. A reason is a text; one of length 0 is replaced by
  the default description of the code, or stays empty when the code has none.
\<close>

definition emitClose :: "nat \<Rightarrow> string \<Rightarrow> WebSocket \<Rightarrow> WebSocket" where
  "emitClose code' reason' this =
     (let r = (if reason' = []
               then (case DefaultCloseDescriptions code' of Some s \<Rightarrow> s | None \<Rightarrow> [])
               else reason')
      in this\<lparr>timers_close := False, timers_open := False,
              effects := effects this
                @ [if options_asyncIterator this then onClose_CloseError code' r
                   else dispatchEvent_close code' r]\<rparr>)"

definition emitFailure :: "string \<Rightarrow> WebSocket \<Rightarrow> WebSocket" where
  "emitFailure reason' this =
     this\<lparr>effects := effects this
            @ [if options_asyncIterator this then onClose_SocketError reason'
               else dispatchEvent_failure reason']\<rparr>"

text \<open>
  \<open>abort(reason, code)\<close>; a caller that gives none passes
  'Unknown Abnormal Connection Abort' and 1006.
\<close>

definition abort :: "string \<Rightarrow> nat \<Rightarrow> WebSocket \<Rightarrow> bool \<times> WebSocket" where
  "abort reason' code' this =
     (if (case sockets_tls this of None \<Rightarrow> False | Some tls \<Rightarrow> ended tls) then (False, this)
      else
        let (r, ws1) = endSocket this;
            ws2 = (if \<not> r then performCloseState ws1 else ws1);
            ws3 = emitClose code' reason' ws2;
            ws4 = emitFailure reason' ws3;
            ws5 = (if closeReject ws4
                   then ws4\<lparr>effects := effects ws4 @ [closeReject_call reason'],
                            closeReject := False, closeResolve := False\<rparr>
                   else ws4)
        in (True, ws5))"

text \<open>
  The handler of the request's \<open>upgrade\<close> event, up to the \<open>open\<close> event: a response
  that is not valid rejects the promise of \<open>open\<close> and aborts with the message as the
  reason (\<open>msg\<close> turns the message into its text); a valid one stores the socket and
  opens the connection.
\<close>

definition on_upgrade ::
  "(handshake_message \<Rightarrow> string) \<Rightarrow> response \<Rightarrow> WebSocket \<Rightarrow> WebSocket" where
  "on_upgrade msg response' this =
     (case validateHandshake response' this of
        (HandshakeMessage v, this') \<Rightarrow> snd (abort (msg v) 1006 this')
      | (HandshakeTrue, this') \<Rightarrow>
          this'\<lparr>sockets_tls := Some \<lparr>ended = False, writable = True\<rparr>,
                status := Open,
                timers_open := False,
                effects := effects this' @ [dispatchEvent_open]\<rparr>)"

subsection \<open>\<open>validateCloseCode\<close>\<close>


text \<open>
  The argument is a JavaScript number: an integer code, or \<open>NaN\<close> for the first test.
  The result is \<open>true\<close> (\<open>Valid\<close>) or the message (\<open>Invalid\<close>).
\<close>

datatype number = Number int | NaN

datatype validation = Valid | Invalid string

definition validateCloseCode :: "number \<Rightarrow> validation" where
  "validateCloseCode code' =
     (case code' of
        NaN \<Rightarrow> Invalid ''The Close Code Must be a Number.''
      | Number c \<Rightarrow>
          if c < 1000 \<or> c \<ge> 5000
          then Invalid ''Out of The Allowed Range - Cannot be below 1000 or above 5000.''
          else if c \<ge> 1000 \<and> c < 2000 then
            (if c \<ge> 1016
             then Invalid ''1xxx Close Codes are Only Allowed in The Range from 1000 to 1015.''
             else if c = 1004 \<or> c = 1005 \<or> c = 1006
             then Invalid ''These Close Codes can only be Generated Locally and not Sent to The Remote Peer.''
             else Valid)
          else if c \<ge> 2000 \<and> c < 3000
          then Invalid ''The Close Codes between 2000 and 3000 are reserved by The WebSocket Protocol.''
          else if c \<ge> 3000 \<and> c < 5000 then Valid
          else Invalid ''Unknown Close Code.'')"



section \<open>Feeding chunks\<close>

text \<open>
  What \<open>handleSocketData\<close> does with each chunk that arrives, for one frame: the chunk
  is written into the queue and the frame is pushed. \<open>feed\<close> does so for the chunks of
  a list in turn and returns the frame and the queue at the end.
\<close>

fun feed ::
  "Buffer list \<Rightarrow> BaseFrame \<Rightarrow> BufferList \<Rightarrow> BufferList_module \<Rightarrow> (nat \<Rightarrow> byte)
     \<Rightarrow> error + (BaseFrame \<times> BufferList_module)" where
  "feed [] f bufferList m mem = Inr (f, m)"
| "feed (chunk # chunks) f bufferList m mem =
     (case push f bufferList (snd (write' bufferList chunk m)) mem of
        Inl e \<Rightarrow> Inl e
      | Inr (r, f', m') \<Rightarrow> feed chunks f' bufferList m' mem)"


text \<open>
  The payload with the key applied: byte \<open>j\<close> XOR \<open>key[j % 4]\<close>. Applied twice it gives
  the payload back (lemma \<open>xor_key_involution\<close>); \<open>FrameMask\<close> is shown to compute it
  behind the offset (lemma \<open>FrameMask_append\<close>).
\<close>

definition xor_key :: "byte list \<Rightarrow> Buffer \<Rightarrow> Buffer" where
  "xor_key m xs = map (\<lambda>j. xs ! j XOR mask_at m (j mod 4)) [0..<length xs]"

text \<open>
  A peer that unmasks, for the round trip; it is not code of the repository and does not
  call \<open>FrameMask\<close>. It reads the bytes that \<open>prepare\<close> hands to the socket as RFC 6455 lays a
  masked frame out: the size of the header from the seven length bits, the four key bytes
  behind the header, the payload behind the key. \<open>unmask_payload_region\<close> undoes the mask
  on the payload with that key and leaves every other byte as it is.
  \<open>fake_unmasking_peer\<close> does the same and takes the four key bytes out of the stream.
\<close>

definition unmask_payload_region :: "Buffer \<Rightarrow> Buffer" where
  "unmask_payload_region bytes =
     (let len7 = unat (bytes ! 1 AND BinaryHelpers_Length);
          h = (if len7 = 126 then 4 else if len7 = 127 then 10 else 2);
          key = take 4 (drop h bytes)
      in take (h + 4) bytes @ xor_key key (drop (h + 4) bytes))"

definition fake_unmasking_peer :: "Buffer \<Rightarrow> Buffer" where
  "fake_unmasking_peer bytes =
     (let len7 = unat (bytes ! 1 AND BinaryHelpers_Length);
          h = (if len7 = 126 then 4 else if len7 = 127 then 10 else 2)
      in take h (unmask_payload_region bytes) @ drop (h + 4) (unmask_payload_region bytes))"

text \<open>
  The header of a frame as RFC 6455 lays it out, for a first byte (FIN, RSV and opcode),
  the MASK bit and the length of the payload: the length in the seven bits up to 125, in
  two more bytes behind 126 up to 65535, in eight more bytes behind 127 above that. A
  frame that a server sends is \<open>frame_header b0 False (length payload) @ payload\<close>.
\<close>

definition frame_header :: "byte \<Rightarrow> bool \<Rightarrow> nat \<Rightarrow> Buffer" where
  "frame_header b0 masked n =
     (let m = (if masked then 128 else 0)
      in if n \<le> 125 then [b0, m OR of_nat n]
         else if n \<le> 65535 then [b0, m OR 126, of_nat (n div 256), of_nat n]
         else [b0, m OR 127,
               of_nat (n div 72057594037927936), of_nat (n div 281474976710656),
               of_nat (n div 1099511627776), of_nat (n div 4294967296),
               of_nat (n div 16777216), of_nat (n div 65536), of_nat (n div 256), of_nat n])"

text \<open>
  The header bytes that the constructor of \<open>OutboundFrame\<close> writes for an opcode and a
  length (lemma \<open>new_OutboundFrame_frame\<close>): FIN and the MASK bit set (lemma
  \<open>client_header_frame_header\<close>).
\<close>

definition client_header :: "nat \<Rightarrow> nat \<Rightarrow> Buffer" where
  "client_header opc n =
     (if n \<le> 125 then [128 OR of_nat opc, 128 OR of_nat n]
      else if n \<le> 65535 then [128 OR of_nat opc, 254, of_nat (n div 256), of_nat n]
      else [128 OR of_nat opc, 255,
            of_nat (n div 72057594037927936), of_nat (n div 281474976710656),
            of_nat (n div 1099511627776), of_nat (n div 4294967296),
            of_nat (n div 16777216), of_nat (n div 65536), of_nat (n div 256), of_nat n])"


section \<open>The queue as one byte sequence\<close>

text \<open>
  The unread bytes of the queue, and the states of the module's variables in which
  the queue is consistent: the first buffer of the chain is not used up, and \<open>length\<close>
  counts the unread bytes. \<open>push_flat\<close> is \<open>push\<close> read on the unread bytes as one
  sequence: the same three blocks, with \<open>take\<close> and \<open>drop\<close> for \<open>joinInto\<close>,
  \<open>take\<close> and \<open>advance\<close>, for a header buffer of ten bytes.
\<close>

definition content :: "BufferList_module \<Rightarrow> Buffer" where
  "content m = drop (bl_offset m) (concat (bl_head m))"

definition queue_ok :: "BufferList_module \<Rightarrow> bool" where
  "queue_ok m = ((case bl_head m of [] \<Rightarrow> bl_offset m = 0 | buffer # next \<Rightarrow> bl_offset m < length buffer)
           \<and> bl_length m = int (length (content m)))"

definition flat_ParsingHeader :: "BaseFrame \<Rightarrow> Buffer \<Rightarrow> bool option \<times> BaseFrame \<times> Buffer" where
  "flat_ParsingHeader f xs =
     (if state f = ParsingHeader then
        if length xs \<le> 1 then (Some False, f, xs)
        else let len = unat (xs ! 1 AND BinaryHelpers_Length)
             in (None,
                 f\<lparr>frameHeader := take 2 xs @ drop 2 (frameHeader f),
                   firstByte := Some (xs ! 0), secondByte := Some (xs ! 1),
                   fin := (unat (xs ! 0 AND BinaryHelpers_Fin) \<noteq> 0), opcode := unat (xs ! 0 AND BinaryHelpers_OPCode),
                   length' := len,
                   state := (if len = 126 then Awaiting16Bit
                             else if len = 127 then Awaiting64Bit
                             else AwaitingPayload)\<rparr>,
                 drop 2 xs)
      else (None, f, xs))"

definition flat_ExtendedLength :: "BaseFrame \<Rightarrow> Buffer \<Rightarrow> bool option \<times> BaseFrame \<times> Buffer" where
  "flat_ExtendedLength f xs =
     (if state f = Awaiting16Bit then
        if length xs \<le> 1 then (Some False, f, xs)
        else (None,
              f\<lparr>frameHeader := take 2 (frameHeader f) @ take 2 xs @ drop 4 (frameHeader f),
                length' := unat (xs ! 0) * 2 ^ 8 + unat (xs ! 1),
                state := AwaitingPayload\<rparr>,
              drop 2 xs)
      else if state f = Awaiting64Bit then
        if length xs \<le> 7 then (Some False, f, xs)
        else (None,
              f\<lparr>frameHeader := take 2 (frameHeader f) @ take 8 xs @ drop 10 (frameHeader f),
                length' := unat (xs ! 4) * 2 ^ 24 + unat (xs ! 5) * 2 ^ 16
                           + unat (xs ! 6) * 2 ^ 8 + unat (xs ! 7),
                state := AwaitingPayload\<rparr>,
              drop 8 xs)
      else (None, f, xs))"

definition flat_AwaitingPayload :: "BaseFrame \<Rightarrow> Buffer \<Rightarrow> bool \<times> BaseFrame \<times> Buffer" where
  "flat_AwaitingPayload f xs =
     (if state f = AwaitingPayload then
        if length xs < length' f then (False, f, xs)
        else (True, f\<lparr>data := Some (take (length' f) xs), state := Finalized\<rparr>,
              drop (length' f) xs)
      else (False, f, xs))"

definition push_flat :: "BaseFrame \<Rightarrow> Buffer \<Rightarrow> bool \<times> BaseFrame \<times> Buffer" where
  "push_flat f xs =
     (case flat_ParsingHeader f xs of
        (Some r, f1, xs1) \<Rightarrow> (r, f1, xs1)
      | (None, f1, xs1) \<Rightarrow>
          (case flat_ExtendedLength f1 xs1 of
             (Some r, f2, xs2) \<Rightarrow> (r, f2, xs2)
           | (None, f2, xs2) \<Rightarrow> flat_AwaitingPayload f2 xs2))"


text \<open>The number that a sequence of bytes is in big-endian order.\<close>

definition be_value :: "Buffer \<Rightarrow> nat" where
  "be_value xs = foldl (\<lambda>acc b. acc * 256 + unat b) 0 xs"



section \<open>The queue: what \<open>write\<close>, \<open>advance\<close>, \<open>joinInto\<close> and \<open>take\<close> do to the unread bytes\<close>

lemma queue_ok_module_init: "queue_ok module_init" "content module_init = []"
  by (simp_all add: queue_ok_def content_def module_init_def)

lemma write'_content:
  "queue_ok m \<Longrightarrow> buf \<noteq> [] \<Longrightarrow> queue_ok (snd (write' this buf m)) \<and> content (snd (write' this buf m)) = content m @ buf"
  by (auto simp: queue_ok_def content_def write'_def split: list.splits)

lemma advance_loop_drop:
  "off \<le> length (concat cs) \<Longrightarrow> advance_loop cs off = (cs', off') \<Longrightarrow>
     drop off' (concat cs') = drop off (concat cs)
     \<and> (case cs' of [] \<Rightarrow> off' = 0 | buffer # next \<Rightarrow> off' < length buffer)"
proof (induction cs arbitrary: off)
  case Nil
  then show ?case by simp
next
  case (Cons b cs)
  show ?case
  proof (cases "length b \<le> off")
    case True
    with Cons.prems have "advance_loop cs (off - length b) = (cs', off')" by simp
    moreover from True Cons.prems have "off - length b \<le> length (concat cs)" by simp
    ultimately have "drop off' (concat cs') = drop (off - length b) (concat cs)
     \<and> (case cs' of [] \<Rightarrow> off' = 0 | buffer # next \<Rightarrow> off' < length buffer)"
      by (rule Cons.IH[rotated])
    with True show ?thesis by simp
  next
    case False
    with Cons.prems show ?thesis by auto
  qed
qed

lemma advance_content:
  assumes "queue_ok m" "n \<le> length (content m)"
  shows "queue_ok (advance this n m) \<and> content (advance this n m) = drop n (content m)"
proof -
  obtain cs' off' where al: "advance_loop (bl_head m) (bl_offset m + n) = (cs', off')"
    by (cases "advance_loop (bl_head m) (bl_offset m + n)")
  from assms have le: "bl_offset m + n \<le> length (concat (bl_head m))"
    by (cases "bl_head m") (auto simp: content_def queue_ok_def)
  note adl = advance_loop_drop[OF le al]
  have adv: "advance this n m = m\<lparr>bl_head := cs', bl_offset := off', bl_length := bl_length m - int n\<rparr>"
    using al by (simp add: advance_def)
  have c: "content (advance this n m) = drop n (content m)"
    using adl by (simp add: adv content_def add.commute)
  have "bl_length (advance this n m) = int (length (content (advance this n m)))"
    using assms by (simp add: c) (simp add: adv queue_ok_def)
  moreover have "case bl_head (advance this n m) of [] \<Rightarrow> bl_offset (advance this n m) = 0
       | buffer # next \<Rightarrow> bl_offset (advance this n m) < length buffer"
    using adl by (cases cs') (simp_all add: adv)
  ultimately show ?thesis using c by (simp add: queue_ok_def)
qed

lemma Buffer_copy_empty: "Buffer_copy [] big t s e = big"
  by (simp add: Buffer_copy_def)

lemma joinInto_loop:
  "ix \<le> e \<Longrightarrow> t + e \<le> length big \<Longrightarrow>
   fst (forEach_loop (joinInto_fn t 0 e) cs (big, ix))
     = take (t + ix) big @ take (e - ix) (concat cs)
       @ drop (t + ix + min (e - ix) (length (concat cs))) big"
proof (induction cs arbitrary: big ix)
  case Nil
  then show ?case by simp
next
  case (Cons b cs)
  show ?case
  proof (cases "b = []")
    case True
    with Cons show ?thesis by (simp add: joinInto_fn_def Buffer_copy_empty)
  next
    case False
    show ?thesis
    proof (cases "ix < e")
      case False
      with Cons.prems have "ix = e" by simp
      with \<open>b \<noteq> []\<close> show ?thesis by (simp add: joinInto_fn_def)
    next
      case True
      have cp: "Buffer_copy b big (t + ix) 0 (min (length b) (e - ix))
                = take (t + ix) big @ take (e - ix) b @ drop (t + ix + min (length b) (e - ix)) big"
        using True Cons.prems \<open>b \<noteq> []\<close> by (auto simp: Buffer_copy_def min_def)
      show ?thesis
      proof (cases "ix + length b > e")
        case True
        then have "min (length b) (e - ix) = e - ix" "min (e - ix) (length b + length (concat cs)) = e - ix"
          by simp_all
        with True \<open>ix < e\<close> \<open>b \<noteq> []\<close> cp show ?thesis
          by (simp add: joinInto_fn_def)
      next
        case False
        let ?big' = "take (t + ix) big @ b @ drop (t + ix + length b) big"
        from False have m1: "min (length b) (e - ix) = length b" by simp
        from False \<open>ix < e\<close> \<open>b \<noteq> []\<close> cp
        have step: "fst (forEach_loop (joinInto_fn t 0 e) (b # cs) (big, ix))
                    = fst (forEach_loop (joinInto_fn t 0 e) cs (?big', ix + length b))"
          by (simp add: joinInto_fn_def m1)
        from False Cons.prems have p: "ix + length b \<le> e" "t + e \<le> length ?big'" by simp_all
        have l: "length (take (t + ix) big) = t + ix" using Cons.prems by simp
        have tk: "take (t + (ix + length b)) ?big' = take (t + ix) big @ b"
          using l by (simp add: add.assoc)
        have dr: "\<And>k. drop (t + (ix + length b) + k) ?big' = drop (t + ix + length b + k) big"
          using l Cons.prems p by (simp add: ac_simps)
        have mn: "min (e - ix) (length b + length (concat cs)) = length b + min (e - (ix + length b)) (length (concat cs))"
          using p(1) by arith
        have "fst (forEach_loop (joinInto_fn t 0 e) cs (?big', ix + length b))
            = take (t + (ix + length b)) ?big' @ take (e - (ix + length b)) (concat cs)
              @ drop (t + (ix + length b) + min (e - (ix + length b)) (length (concat cs))) ?big'"
          by (rule Cons.IH[OF p])
        also have "\<dots> = take (t + ix) big @ take (e - ix) (concat (b # cs))
       @ drop (t + ix + min (e - ix) (length (concat (b # cs)))) big"
          using p by (simp only: tk dr) (simp add: mn add.assoc)
        finally show ?thesis using step by simp
      qed
    qed
  qed
qed

lemma forEach_content:
  assumes "queue_ok m" "bl_head m \<noteq> []"
  shows "forEach this fn vars m
         = forEach_loop fn (drop (bl_offset m) (hd (bl_head m)) # tl (bl_head m)) vars"
    and "concat (drop (bl_offset m) (hd (bl_head m)) # tl (bl_head m)) = content m"
proof -
  from assms obtain b next' where h: "bl_head m = b # next'" by (cases "bl_head m") auto
  with assms(1) have "bl_offset m < length b" by (simp add: queue_ok_def)
  with h show "forEach this fn vars m
         = forEach_loop fn (drop (bl_offset m) (hd (bl_head m)) # tl (bl_head m)) vars"
    and "concat (drop (bl_offset m) (hd (bl_head m)) # tl (bl_head m)) = content m"
    by (simp_all add: content_def forEach_def del: forEach_loop.simps)
qed

lemma joinInto_content:
  assumes "queue_ok m" "t + e \<le> length tgt" "e \<le> length (content m)"
  shows "joinInto this tgt t 0 e m = Inr (take t tgt @ take e (content m) @ drop (t + e) tgt)"
proof (cases "bl_head m = []")
  case True
  with assms(3) show ?thesis by (simp add: joinInto_def content_def)
next
  case False
  note fe = forEach_content[OF assms(1) False]
  from assms(2) have "\<not> int (length tgt) - int t < int e - int 0" by simp
  with False show ?thesis
    using joinInto_loop[of 0 e t tgt "drop (bl_offset m) (hd (bl_head m)) # tl (bl_head m)"] assms(2,3)
    by (simp add: joinInto_def fe del: forEach_loop.simps concat.simps)
qed

lemma join_fn_joinInto_fn: "join_fn 0 e = joinInto_fn 0 0 e"
  by (simp add: join_fn_def joinInto_fn_def fun_eq_iff)

lemma take'_content:
  assumes "queue_ok m" "e \<le> length (content m)"
  shows "take' this e m mem = Inr (take e (content m))"
proof (cases "bl_head m = []")
  case True
  with assms(2) show ?thesis by (simp add: take'_def join_def content_def)
next
  case False
  note fe = forEach_content[OF assms(1) False]
  have "length (allocUnsafe e mem) = e" by (simp add: allocUnsafe_def)
  with False show ?thesis
    using joinInto_loop[of 0 e 0 "allocUnsafe e mem" "drop (bl_offset m) (hd (bl_head m)) # tl (bl_head m)"] assms(2)
    by (simp add: take'_def join_def join_fn_joinInto_fn fe del: forEach_loop.simps concat.simps)
qed

lemma push_ParsingHeader_flat:
  assumes "queue_ok m" "length (frameHeader f) = 10" "flat_ParsingHeader f (content m) = (r, f', xs')"
  shows "\<exists>m'. push_ParsingHeader f bufferList m = Inr (r, f', m') \<and> queue_ok m' \<and> content m' = xs'
              \<and> length (frameHeader f') = 10"
proof (cases "state f = ParsingHeader \<and> \<not> length (content m) \<le> 1")
  case False
  with assms show ?thesis
    by (auto simp: push_ParsingHeader_def flat_ParsingHeader_def get_length_def queue_ok_def)
next
  case True
  from assms(1) have len: "bl_length m = int (length (content m))" by (simp add: queue_ok_def)
  from True have n: "2 \<le> length (content m)" by simp
  have j: "joinInto bufferList (frameHeader f) 0 0 2 m
           = Inr (take 2 (content m) @ drop 2 (frameHeader f))"
    using joinInto_content[OF assms(1), of 0 2 "frameHeader f" bufferList] assms(2) n
    by (simp add: numeral_2_eq_2)
  have ix: "at_index (take 2 (content m) @ drop 2 (frameHeader f)) 0 = Some (content m ! 0)"
           "at_index (take 2 (content m) @ drop 2 (frameHeader f)) (Suc 0) = Some (content m ! 1)"
    using n assms(2) by (simp_all add: at_index_def nth_append)
  from advance_content[OF assms(1) n, of bufferList] True assms(2,3) n show ?thesis
    by (simp add: push_ParsingHeader_def flat_ParsingHeader_def get_length_def len j ix Let_def)
       (auto)
qed


lemma push_ExtendedLength_flat:
  assumes "queue_ok m" "length (frameHeader f) = 10" "flat_ExtendedLength f (content m) = (r, f', xs')"
  shows "\<exists>m'. push_ExtendedLength f bufferList m = Inr (r, f', m') \<and> queue_ok m' \<and> content m' = xs'
              \<and> length (frameHeader f') = 10"
proof -
  from assms(1) have len: "bl_length m = int (length (content m))" by (simp add: queue_ok_def)
  consider (a) "state f = Awaiting16Bit" "2 \<le> length (content m)"
    | (b) "state f = Awaiting64Bit" "8 \<le> length (content m)"
    | (c) "\<not> (state f = Awaiting16Bit \<and> 2 \<le> length (content m))"
          "\<not> (state f = Awaiting64Bit \<and> 8 \<le> length (content m))"
    by blast
  then show ?thesis
  proof cases
    case a
    let ?h = "take 2 (frameHeader f) @ take 2 (content m) @ drop 4 (frameHeader f)"
    have j: "joinInto bufferList (frameHeader f) 2 0 2 m = Inr ?h"
      using joinInto_content[OF assms(1), of 2 2 "frameHeader f" bufferList] assms(2) a(2)
      by simp
    have rd: "readUInt16BE ?h 2 = Inr (unat (content m ! 0) * 2 ^ 8 + unat (content m ! 1))"
      using a(2) assms(2) by (simp add: readUInt16BE_def nth_append)
    from advance_content[OF assms(1) a(2), of bufferList] a assms(2,3) show ?thesis
      by (simp add: push_ExtendedLength_def flat_ExtendedLength_def get_length_def len j rd)
         auto
  next
    case b
    let ?h = "take 2 (frameHeader f) @ take 8 (content m)"
    have j: "joinInto bufferList (frameHeader f) 2 0 8 m = Inr ?h"
      using joinInto_content[OF assms(1), of 2 8 "frameHeader f" bufferList] assms(2) b(2)
      by simp
    have rd: "readUInt32BE ?h 6 = Inr (unat (content m ! 4) * 2 ^ 24 + unat (content m ! 5) * 2 ^ 16
                           + unat (content m ! 6) * 2 ^ 8 + unat (content m ! 7))"
      using b(2) assms(2) by (simp add: readUInt32BE_def nth_append)
    from advance_content[OF assms(1) b(2), of bufferList] b assms(2,3) show ?thesis
      by (simp add: push_ExtendedLength_def flat_ExtendedLength_def get_length_def len j rd)
         auto
  next
    case c
    with assms show ?thesis
      by (auto simp: push_ExtendedLength_def flat_ExtendedLength_def get_length_def len
               split: if_splits)
  qed
qed

lemma push_AwaitingPayload_flat:
  assumes "queue_ok m" "flat_AwaitingPayload f (content m) = (r, f', xs')"
  shows "\<exists>m'. push_AwaitingPayload f bufferList m mem = Inr (r, f', m') \<and> queue_ok m' \<and> content m' = xs'
              \<and> frameHeader f' = frameHeader f"
proof (cases "state f = AwaitingPayload \<and> length' f \<le> length (content m)")
  case False
  from assms(1) have len: "bl_length m = int (length (content m))" by (simp add: queue_ok_def)
  from False assms show ?thesis
    by (auto simp: push_AwaitingPayload_def flat_AwaitingPayload_def get_length_def len success_def
             split: if_splits)
next
  case True
  from assms(1) have len: "bl_length m = int (length (content m))" by (simp add: queue_ok_def)
  from True have n: "length' f \<le> length (content m)" by simp
  note tk = take'_content[OF assms(1) n, of bufferList mem]
  note ad = advance_content[OF assms(1) n, of bufferList]
  show ?thesis
  proof (cases "length' f = 0")
    case z: True
    with tk have "take' bufferList 0 m mem = Inr []" by simp
    with ad True assms(2) z show ?thesis
      by (simp add: push_AwaitingPayload_def flat_AwaitingPayload_def get_length_def len
            success_def Let_def) (auto simp: success_def)
  next
    case False
    with ad True assms(2) show ?thesis
      by (simp add: push_AwaitingPayload_def flat_AwaitingPayload_def get_length_def len
            success_def tk) auto
  qed
qed

lemma push_flat_refines:
  assumes "queue_ok m" "length (frameHeader f) = 10" "push_flat f (content m) = (r, f', xs')"
  shows "\<exists>m'. push f bufferList m mem = Inr (r, f', m') \<and> queue_ok m' \<and> content m' = xs'
              \<and> length (frameHeader f') = 10"
proof -
  obtain r1 f1 xs1 where s1: "flat_ParsingHeader f (content m) = (r1, f1, xs1)"
    by (cases "flat_ParsingHeader f (content m)")
  from push_ParsingHeader_flat[OF assms(1,2) s1, of bufferList] obtain m1 where
    p1: "push_ParsingHeader f bufferList m = Inr (r1, f1, m1)" "queue_ok m1" "content m1 = xs1"
        "length (frameHeader f1) = 10"
    by blast
  show ?thesis
  proof (cases r1)
    case (Some b)
    with s1 p1 assms(3) show ?thesis by (auto simp: push_flat_def push_def)
  next
    case None
    obtain r2 f2 xs2 where s2: "flat_ExtendedLength f1 (content m1) = (r2, f2, xs2)"
      by (cases "flat_ExtendedLength f1 (content m1)")
    from push_ExtendedLength_flat[OF p1(2,4) s2, of bufferList] obtain m2 where
      p2: "push_ExtendedLength f1 bufferList m1 = Inr (r2, f2, m2)" "queue_ok m2" "content m2 = xs2"
        "length (frameHeader f2) = 10"
      by blast
    show ?thesis
    proof (cases r2)
      case (Some b)
      with None s1 s2 p1 p2 assms(3) show ?thesis by (auto simp: push_flat_def push_def)
    next
      case None2: None
      from None None2 s1 s2 p1 assms(3) have s3: "flat_AwaitingPayload f2 (content m2) = (r, f', xs')"
        by (simp add: push_flat_def p2(3))
      from push_AwaitingPayload_flat[OF p2(2) s3, of bufferList mem] None None2 p1 p2
      show ?thesis by (auto simp: push_def)
    qed
  qed
qed


section \<open>The decoder on more bytes\<close>

lemma push_flat_Finalized: "state f = Finalized \<Longrightarrow> push_flat f xs = (False, f, xs)"
  by (simp add: push_flat_def flat_ParsingHeader_def flat_ExtendedLength_def flat_AwaitingPayload_def)

lemma flat_AwaitingPayload_append:
  "flat_AwaitingPayload f xs = (True, f', xs') \<Longrightarrow> flat_AwaitingPayload f (xs @ ys) = (True, f', xs' @ ys)"
  "flat_AwaitingPayload f xs = (False, f', xs') \<Longrightarrow> f' = f \<and> xs' = xs"
  by (auto simp: flat_AwaitingPayload_def split: if_splits)

lemma flat_AwaitingPayload_True: "flat_AwaitingPayload f xs = (True, f', xs') \<Longrightarrow> state f' = Finalized"
  by (auto simp: flat_AwaitingPayload_def split: if_splits)

lemma flat_ExtendedLength_append:
  "flat_ExtendedLength f xs = (None, f', xs') \<Longrightarrow> flat_ExtendedLength f (xs @ ys) = (None, f', xs' @ ys)"
  "flat_ExtendedLength f xs = (Some r, f', xs') \<Longrightarrow> f' = f \<and> xs' = xs \<and> r = False \<and> (state f = Awaiting16Bit \<or> state f = Awaiting64Bit)"
  "flat_ExtendedLength f xs = (None, f', xs') \<Longrightarrow> state f' \<noteq> ParsingHeader \<Longrightarrow> state f' \<noteq> Awaiting16Bit \<and> state f' \<noteq> Awaiting64Bit"
  by (auto simp: flat_ExtendedLength_def nth_append split: if_splits)

lemma flat_ParsingHeader_append:
  "flat_ParsingHeader f xs = (None, f', xs') \<Longrightarrow> flat_ParsingHeader f (xs @ ys) = (None, f', xs' @ ys)"
  "flat_ParsingHeader f xs = (Some r, f', xs') \<Longrightarrow> f' = f \<and> xs' = xs \<and> r = False \<and> state f = ParsingHeader"
  "flat_ParsingHeader f xs = (None, f', xs') \<Longrightarrow> state f' \<noteq> ParsingHeader"
  by (auto simp: flat_ParsingHeader_def nth_append Let_def split: if_splits)

lemma flat_skip:
  "state f \<noteq> ParsingHeader \<Longrightarrow> flat_ParsingHeader f xs = (None, f, xs)"
  "state f \<noteq> Awaiting16Bit \<Longrightarrow> state f \<noteq> Awaiting64Bit \<Longrightarrow> flat_ExtendedLength f xs = (None, f, xs)"
  by (simp_all add: flat_ParsingHeader_def flat_ExtendedLength_def)

lemma push_flat_True_append:
  assumes "push_flat f xs = (True, f', xs')"
  shows "push_flat f (xs @ ys) = (True, f', xs' @ ys) \<and> state f' = Finalized"
proof -
  obtain r1 f1 xs1 where s1: "flat_ParsingHeader f xs = (r1, f1, xs1)"
    by (cases "flat_ParsingHeader f xs")
  obtain r2 f2 xs2 where s2: "flat_ExtendedLength f1 xs1 = (r2, f2, xs2)"
    by (cases "flat_ExtendedLength f1 xs1")
  from assms s1 flat_ParsingHeader_append(2)[of f xs _ f1 xs1] have r1: "r1 = None"
    by (cases r1) (auto simp: push_flat_def)
  from assms s1 s2 r1 flat_ExtendedLength_append(2)[of f1 xs1 _ f2 xs2] have r2: "r2 = None"
    by (cases r2) (auto simp: push_flat_def)
  from assms s1 s2 r1 r2 have s3: "flat_AwaitingPayload f2 xs2 = (True, f', xs')"
    by (simp add: push_flat_def)
  from flat_ParsingHeader_append(1)[OF s1[unfolded r1]] flat_ExtendedLength_append(1)[OF s2[unfolded r2]]
    flat_AwaitingPayload_append(1)[OF s3] flat_AwaitingPayload_True[OF s3]
  show ?thesis by (simp add: push_flat_def)
qed

lemma push_flat_False_append:
  assumes "push_flat f xs = (False, f', xs')"
  shows "push_flat f (xs @ ys) = push_flat f' (xs' @ ys)"
proof -
  obtain r1 f1 xs1 where s1: "flat_ParsingHeader f xs = (r1, f1, xs1)"
    by (cases "flat_ParsingHeader f xs")
  show ?thesis
  proof (cases r1)
    case (Some b)
    with assms s1 flat_ParsingHeader_append(2)[of f xs b f1 xs1] show ?thesis
      by (auto simp: push_flat_def)
  next
    case None
    note a1 = flat_ParsingHeader_append(1)[OF s1[unfolded None], of ys]
    note n1 = flat_ParsingHeader_append(3)[OF s1[unfolded None]]
    obtain r2 f2 xs2 where s2: "flat_ExtendedLength f1 xs1 = (r2, f2, xs2)"
      by (cases "flat_ExtendedLength f1 xs1")
    show ?thesis
    proof (cases r2)
      case (Some b)
      with assms s1 s2 None flat_ExtendedLength_append(2)[of f1 xs1 b f2 xs2]
      have e: "f' = f1" "xs' = xs1" by (auto simp: push_flat_def)
      from a1 n1 show ?thesis by (simp add: push_flat_def e flat_skip)
    next
      case None2: None
      note a2 = flat_ExtendedLength_append(1)[OF s2[unfolded None2], of ys]
      from assms s1 s2 None None2 have s3: "flat_AwaitingPayload f2 xs2 = (False, f', xs')"
        by (simp add: push_flat_def)
      from flat_AwaitingPayload_append(2)[OF s3] have e: "f' = f2" "xs' = xs2" by simp_all
      have n2: "state f2 \<noteq> ParsingHeader \<and> state f2 \<noteq> Awaiting16Bit \<and> state f2 \<noteq> Awaiting64Bit"
        using s2 n1 None2 by (auto simp: flat_ExtendedLength_def split: if_splits)
      from a1 a2 n2 show ?thesis by (simp add: push_flat_def e flat_skip)
    qed
  qed
qed

lemma feed_Finalized:
  "state f = Finalized \<Longrightarrow> queue_ok m \<Longrightarrow> [] \<notin> set chunks \<Longrightarrow> length (frameHeader f) = 10 \<Longrightarrow>
   \<exists>m'. feed chunks f bufferList m mem = Inr (f, m') \<and> queue_ok m' \<and> content m' = content m @ concat chunks"
proof (induction chunks arbitrary: m)
  case Nil
  then show ?case by simp
next
  case (Cons c cs)
  let ?m1 = "snd (write' bufferList c m)"
  from Cons.prems have w: "queue_ok ?m1" "content ?m1 = content m @ c"
    using write'_content[of m c bufferList] by auto
  from push_flat_refines[OF w(1) Cons.prems(4) push_flat_Finalized[OF Cons.prems(1)], of bufferList mem]
  obtain m2 where p: "push f bufferList ?m1 mem = Inr (False, f, m2)" "queue_ok m2" "content m2 = content ?m1"
    by blast
  from Cons.prems have "[] \<notin> set cs" by simp
  from Cons.IH[OF Cons.prems(1) p(2) this Cons.prems(4)] p w show ?case by simp
qed

lemma feed_push_flat:
  "chunks \<noteq> [] \<Longrightarrow> [] \<notin> set chunks \<Longrightarrow> queue_ok m \<Longrightarrow> length (frameHeader f) = 10 \<Longrightarrow>
   push_flat f (content m @ concat chunks) = (True, F, rest) \<Longrightarrow>
   \<exists>m'. feed chunks f bufferList m mem = Inr (F, m') \<and> queue_ok m' \<and> content m' = rest"
proof (induction chunks arbitrary: m f)
  case Nil
  then show ?case by simp
next
  case (Cons c cs)
  let ?m1 = "snd (write' bufferList c m)"
  from Cons.prems have w: "queue_ok ?m1" "content ?m1 = content m @ c"
    using write'_content[of m c bufferList] by auto
  from Cons.prems have ne: "[] \<notin> set cs" by simp
  obtain r f1 xs1 where s: "push_flat f (content ?m1) = (r, f1, xs1)"
    by (cases "push_flat f (content ?m1)")
  from push_flat_refines[OF w(1) Cons.prems(4) s, of bufferList mem]
  obtain m2 where p: "push f bufferList ?m1 mem = Inr (r, f1, m2)" "queue_ok m2" "content m2 = xs1"
     "length (frameHeader f1) = 10"
    by blast
  show ?case
  proof (cases r)
    case True
    with s have s': "push_flat f (content ?m1) = (True, f1, xs1)" by simp
    from push_flat_True_append[OF s', of "concat cs"] Cons.prems(5) w(2)
    have e: "F = f1" "rest = xs1 @ concat cs" "state f1 = Finalized" by simp_all
    from feed_Finalized[OF e(3) p(2) ne p(4), of bufferList mem] p e show ?thesis by simp
  next
    case False
    with s have s': "push_flat f (content ?m1) = (False, f1, xs1)" by simp
    from push_flat_False_append[OF s', of "concat cs"] Cons.prems(5) w(2)
    have t: "push_flat f1 (content m2 @ concat cs) = (True, F, rest)" by (simp add: p(3))
    have "cs \<noteq> []"
    proof
      assume "cs = []"
      with t have "push_flat f1 xs1 = (True, F, rest)" by (simp add: p(3))
      moreover from push_flat_False_append[OF s', of "[]"] s'
      have "push_flat f1 xs1 = (False, f1, xs1)" by simp
      ultimately show False by simp
    qed
    from Cons.IH[OF this ne p(2) p(4) t] p False show ?thesis by simp
  qed
qed



section \<open>Bytes and bits\<close>

lemma int255: "(255 :: int) = mask 8" by (simp add: mask_eq_exp_minus_1)
lemma byte127: "(127 :: byte) = mask 7" by (simp add: mask_eq_exp_minus_1)
lemma byte15: "(15 :: byte) = mask 4" by (simp add: mask_eq_exp_minus_1)
lemma byte128: "(128 :: byte) = 2 ^ 7" by simp
lemma int128: "(128 :: int) = 2 ^ 7" by simp

lemma byte_ToInt32_and: "(word_of_int (ToInt32 x AND 255) :: byte) = word_of_int x"
  unfolding int255 by (rule bit_word_eqI) (auto simp: ToInt32_def bit_simps)

lemma byte_ToInt32: "(word_of_int (ToInt32 x) :: byte) = word_of_int x"
  by (rule bit_word_eqI) (auto simp: ToInt32_def bit_simps)

lemma byte_or_ToInt32: "(word_of_int (128 OR ToInt32 x) :: byte) = 128 OR word_of_int x"
  unfolding int128 byte128 by (rule bit_word_eqI) (auto simp: ToInt32_def bit_simps)

lemma len7: "n < 128 \<Longrightarrow> unat ((128 OR (of_nat n :: byte)) AND 127) = n"
proof -
  assume n: "n < 128"
  have "(128 OR (of_nat n :: byte)) AND 127 = of_nat n AND 127"
    by (simp add: bit.conj_disj_distrib2)
  also have "\<dots> = of_nat n AND mask 7" by (simp add: byte127)
  also have "\<dots> = of_nat n"
    using n by (intro less_mask_eq) (simp add: word_less_nat_alt unat_of_nat)
  finally show ?thesis using n by (simp add: unat_of_nat)
qed

lemma op4: "n < 16 \<Longrightarrow> unat ((128 OR (of_nat n :: byte)) AND 15) = n"
proof -
  assume n: "n < 16"
  have "(128 OR (of_nat n :: byte)) AND 15 = of_nat n AND 15"
    by (simp add: bit.conj_disj_distrib2)
  also have "\<dots> = of_nat n AND mask 4" by (simp add: byte15)
  also have "\<dots> = of_nat n"
    using n by (intro less_mask_eq) (simp add: word_less_nat_alt unat_of_nat)
  finally show ?thesis using n by (simp add: unat_of_nat)
qed

lemma u16: "n \<le> 65535 \<Longrightarrow> unat (of_nat (n div 256) :: byte) * 2 ^ 8 + unat (of_nat n :: byte) = n"
  by (simp add: unat_of_nat) 

lemma u32_mod:
  "unat (of_nat (n div 16777216) :: byte) * 2 ^ 24 + unat (of_nat (n div 65536) :: byte) * 2 ^ 16
   + unat (of_nat (n div 256) :: byte) * 2 ^ 8 + unat (of_nat n :: byte) = n mod 2 ^ 32"
proof -
  have a: "n = n div 256 * 256 + n mod 256" by simp
  have b: "n div 256 = n div 65536 * 256 + n div 256 mod 256"
    using div_mult_mod_eq[of "n div 256" 256] by (simp add: div_mult2_eq[symmetric])
  have c: "n div 65536 = n div 16777216 * 256 + n div 65536 mod 256"
    using div_mult_mod_eq[of "n div 65536" 256] by (simp add: div_mult2_eq[symmetric])
  have d: "n div 16777216 = n div 4294967296 * 256 + n div 16777216 mod 256"
    using div_mult_mod_eq[of "n div 16777216" 256] by (simp add: div_mult2_eq[symmetric])
  define lo where "lo = n div 16777216 mod 256 * 16777216 + n div 65536 mod 256 * 65536
                        + n div 256 mod 256 * 256 + n mod 256"
  have e: "n = n div 4294967296 * 4294967296 + lo"
    unfolding lo_def using a b c d by linarith
  have "lo < 4294967296" unfolding lo_def
    using mod_less_divisor[of 256 "n div 16777216"] mod_less_divisor[of 256 "n div 65536"]
      mod_less_divisor[of 256 "n div 256"] mod_less_divisor[of 256 n] by linarith
  then have "n mod 4294967296 = lo" using e by (metis mod_mult_self3 mod_less)
  then show ?thesis by (simp add: unat_of_nat lo_def)
qed

lemma len7_any:
  assumes "n < 128"
  shows "unat (((if masked then 128 else 0) OR (of_nat n :: byte)) AND 127) = n"
proof (cases masked)
  case True
  with len7[OF assms] show ?thesis by simp
next
  case False
  have "(of_nat n :: byte) AND 127 = of_nat n AND mask 7" by (simp add: byte127)
  also have "\<dots> = of_nat n"
    using assms by (intro less_mask_eq) (simp add: word_less_nat_alt unat_of_nat)
  finally show ?thesis using assms False by (simp add: unat_of_nat)
qed



section \<open>Masking and the layout of an outbound frame\<close>

lemma FrameMask_loop_eq:
  "i \<le> n \<Longrightarrow> off + n = length p \<Longrightarrow>
   FrameMask_loop p m off i n
     = take (off + i) p @ map (\<lambda>j. p ! (off + j) XOR mask_at m (j mod 4)) [i..<n]"
proof (induction p m off i n rule: FrameMask_loop.induct)
  case (1 p m off i n)
  show ?case
  proof (cases "i < n")
    case False
    with "1.prems" have "i = n" by simp
    with "1.prems" show ?thesis by (simp add: FrameMask_loop.simps[of p m off n n])
  next
    case True
    let ?v = "p ! (off + i) XOR mask_at m (i mod 4)"
    let ?p = "p[off + i := ?v]"
    from True "1.prems" have len: "off + i < length p" by simp
    from True "1.prems" have "i + 1 \<le> n" "off + n = length ?p" by simp_all
    from "1.IH"[OF True this]
    have ih: "FrameMask_loop ?p m off (i + 1) n
      = take (off + (i + 1)) ?p @ map (\<lambda>j. ?p ! (off + j) XOR mask_at m (j mod 4)) [i + 1..<n]" .
    have "take (Suc (off + i)) ?p = take (off + i) ?p @ [?p ! (off + i)]"
      using len by (simp add: take_Suc_conv_app_nth)
    with len have t: "take (off + (i + 1)) ?p = take (off + i) p @ [?v]"
      by simp
    have mp: "map (\<lambda>j. ?p ! (off + j) XOR mask_at m (j mod 4)) [i + 1..<n]
            = map (\<lambda>j. p ! (off + j) XOR mask_at m (j mod 4)) [i + 1..<n]"
      by (rule map_cong) auto
    have "FrameMask_loop p m off i n = FrameMask_loop ?p m off (i + 1) n"
      using True by (subst FrameMask_loop.simps) simp
    also have "\<dots> = (take (off + i) p @ [?v]) @ map (\<lambda>j. p ! (off + j) XOR mask_at m (j mod 4)) [i + 1..<n]"
      by (simp only: ih t mp)
    finally show ?thesis using True by (simp add: upt_conv_Cons)
  qed
qed

lemma FrameMask_append:
  "FrameMask (pre @ xs) m (length pre) = pre @ xor_key m xs"
proof -
  have "map (\<lambda>j. (pre @ xs) ! (length pre + j) XOR mask_at m (j mod 4)) [0..<length xs]
        = map (\<lambda>j. xs ! j XOR mask_at m (j mod 4)) [0..<length xs]"
    by (rule map_cong) auto
  then show ?thesis
    using FrameMask_loop_eq[of 0 "length xs" "length pre" "pre @ xs" m]
    by (simp add: FrameMask_def xor_key_def)
qed

lemma xor_key_involution: "xor_key m (xor_key m xs) = xs"
  by (rule nth_equalityI) (simp_all add: xor_key_def xor.assoc)

lemma alloc_split: "allocUnsafe (n + k) mem = map mem [0..<k] @ map mem [k..<n + k]"
proof -
  have "[0..<n + k] = [0..<k] @ [k..<n + k]"
    using upt_add_eq_append[of 0 k n] by (simp add: add.commute)
  then show ?thesis by (simp add: allocUnsafe_def)
qed

lemma upt6: "[0..<6] = [0, 1, 2, 3, 4, 5]" by (simp add: upt_rec)
lemma upt8: "[0..<8] = [0, 1, 2, 3, 4, 5, 6, 7]" by (simp add: upt_rec)
lemma upt14: "[0..<14] = [0, 1, 2, 3, 4, 5, 6, 7, 8, 9, 10, 11, 12, 13]" by (simp add: upt_rec)

lemma Buffer_copy_tail:
  "length tgt = k + length src \<Longrightarrow> Buffer_copy src tgt k 0 (length src) = take k tgt @ src"
  by (cases "src = []") (auto simp: Buffer_copy_def)

lemma new_OutboundFrame_frame:
  assumes "opc \<noteq> OPCodes_SocketClose"
  shows "\<exists>junk. length junk = 4 \<and>
     new_OutboundFrame opc d closeCode mem
       = Inr \<lparr>frame = client_header opc (length d) @ junk @ d,
              header = length (client_header opc (length d)),
              offset = length (client_header opc (length d)) + 4, mask' = None\<rparr>"
proof -
  consider (a) "length d \<le> 125" | (b) "\<not> length d \<le> 125" "length d \<le> 65535"
    | (c) "\<not> length d \<le> 125" "\<not> length d \<le> 65535" by blast
  then show ?thesis
  proof cases
    case a
    have "new_OutboundFrame opc d closeCode mem
       = Inr \<lparr>frame = client_header opc (length d) @ [mem 2, mem 3, mem 4, mem 5] @ d,
              header = length (client_header opc (length d)),
              offset = length (client_header opc (length d)) + 4, mask' = None\<rparr>"
      using assms a
      by (simp add: new_OutboundFrame_def client_header_def Let_def alloc_split[of "length d" 6] upt6
            store_def list_update_append1 Buffer_copy_tail byte_or_ToInt32)
    then show ?thesis by (intro exI[of _ "[mem 2, mem 3, mem 4, mem 5]"]) simp
  next
    case b
    have "new_OutboundFrame opc d closeCode mem
       = Inr \<lparr>frame = client_header opc (length d) @ [mem 4, mem 5, mem 6, mem 7] @ d,
              header = length (client_header opc (length d)),
              offset = length (client_header opc (length d)) + 4, mask' = None\<rparr>"
      using assms b
      by (simp add: new_OutboundFrame_def client_header_def Let_def alloc_split[of "length d" 8] upt8
            store_def list_update_append1 Buffer_copy_tail byte_or_ToInt32 byte_ToInt32
            byte_ToInt32_and tilde_tilde_div_def)
    then show ?thesis by (intro exI[of _ "[mem 4, mem 5, mem 6, mem 7]"]) simp
  next
    case c
    have "new_OutboundFrame opc d closeCode mem
       = Inr \<lparr>frame = client_header opc (length d) @ [mem 10, mem 11, mem 12, mem 13] @ d,
              header = length (client_header opc (length d)),
              offset = length (client_header opc (length d)) + 4, mask' = None\<rparr>"
      using assms c
      by (simp add: new_OutboundFrame_def client_header_def Let_def alloc_split[of "length d" 14] upt14
            store_def list_update_append1 Buffer_copy_tail byte_or_ToInt32 byte_ToInt32
            byte_ToInt32_and tilde_tilde_div_def)
    then show ?thesis by (intro exI[of _ "[mem 10, mem 11, mem 12, mem 13]"]) simp
  qed
qed

lemma length_client_header:
  "length (client_header opc n) = (if n \<le> 125 then 2 else if n \<le> 65535 then 4 else 10)"
  by (simp add: client_header_def)

lemma client_header_len7:
  "unat (client_header opc n ! 1 AND BinaryHelpers_Length)
     = (if n \<le> 125 then n else if n \<le> 65535 then 126 else 127)"
  using len7[of n] by (simp add: client_header_def)

lemma prepare_frame:
  assumes "length junk = 4"
  shows "fst (prepare \<lparr>frame = H @ junk @ d, header = length H, offset = length H + 4, mask' = None\<rparr>
                 r0 r1 r2 r3)
         = H @ [r0, r1, r2, r3] @ xor_key [r0, r1, r2, r3] d"
proof -
  have "Buffer_copy [r0, r1, r2, r3] (H @ junk @ d) (length H) 0 (length [r0, r1, r2, r3])
          = (H @ [r0, r1, r2, r3]) @ d"
    using assms by (simp add: Buffer_copy_def)
  moreover have "length (H @ [r0, r1, r2, r3]) = length H + 4" by simp
  then have "FrameMask ((H @ [r0, r1, r2, r3]) @ d) [r0, r1, r2, r3] (length H + 4)
        = (H @ [r0, r1, r2, r3]) @ xor_key [r0, r1, r2, r3] d"
    using FrameMask_append[of "H @ [r0, r1, r2, r3]" d "[r0, r1, r2, r3]"] by (simp only:)
  ultimately show ?thesis by (simp add: prepare_def Let_def)
qed

lemma client_header_frame_header:
  "client_header opc n = frame_header (128 OR of_nat opc) True n"
  by (simp add: client_header_def frame_header_def)

lemma unmask_stream:
  assumes "length m = 4" "H = client_header opc (length d)"
  shows "unmask_payload_region (H @ m @ xor_key m d) = H @ m @ d"
proof -
  let ?bytes = "H @ m @ xor_key m d"
  have lh: "1 < length H" using assms(2) by (simp add: length_client_header)
  then have b1: "?bytes ! 1 = H ! 1" by (simp add: nth_append)
  have h: "(if unat (H ! 1 AND BinaryHelpers_Length) = 126 then 4
            else if unat (H ! 1 AND BinaryHelpers_Length) = 127 then 10 else 2) = length H"
    unfolding assms(2) client_header_len7 length_client_header by simp
  have key: "take 4 (drop (length H) ?bytes) = m" using assms(1) by simp
  have tk: "take (length H + 4) ?bytes = H @ m" using assms(1) by simp
  have dr: "drop (length H + 4) ?bytes = xor_key m d" using assms(1) by simp
  show ?thesis
    unfolding unmask_payload_region_def Let_def b1 h key tk dr
    by (simp add: xor_key_involution)
qed

lemma peer_stream:
  assumes "length m = 4" "H = client_header opc (length d)"
  shows "fake_unmasking_peer (H @ m @ xor_key m d) = H @ d"
proof -
  let ?bytes = "H @ m @ xor_key m d"
  have lh: "1 < length H" using assms(2) by (simp add: length_client_header)
  then have b1: "?bytes ! 1 = H ! 1" by (simp add: nth_append)
  have h: "(if unat (H ! 1 AND BinaryHelpers_Length) = 126 then 4
            else if unat (H ! 1 AND BinaryHelpers_Length) = 127 then 10 else 2) = length H"
    unfolding assms(2) client_header_len7 length_client_header by simp
  show ?thesis
    unfolding fake_unmasking_peer_def Let_def b1 h unmask_stream[OF assms]
    using assms(1) by simp
qed

text \<open>
  The decoder on a frame laid out as RFC 6455 has it, on the unread bytes as one
  sequence: the frame is finalized with the FIN bit and the opcode of the first byte. Its
  payload is the payload of the frame where the length is below \<open>2 ^ 32\<close>; of a longer one
  it is the first \<open>length mod 2 ^ 32\<close> bytes, the rest staying unread.
\<close>

lemma push_flat_frame:
  "\<exists>F. push_flat (new_BaseFrame hdr) (frame_header b0 masked (length d) @ d)
          = (True, F, drop (length d mod 2 ^ 32) d)
       \<and> state F = Finalized \<and> fin F = (b0 AND BinaryHelpers_Fin \<noteq> 0)
       \<and> opcode F = unat (b0 AND BinaryHelpers_OPCode)
       \<and> data F = Some (take (length d mod 2 ^ 32) d)
       \<and> length' F = length d mod 2 ^ 32"
proof -
  let ?n = "length d"
  consider (a) "?n \<le> 125" | (b) "\<not> ?n \<le> 125" "?n \<le> 65535"
    | (c) "\<not> ?n \<le> 125" "\<not> ?n \<le> 65535" by blast
  then show ?thesis
  proof cases
    case a
    then have "?n < 128" by simp
    note l = len7_any[OF this, of masked]
    from a have m: "?n mod 2 ^ 32 = ?n" by simp
    from a show ?thesis
      unfolding m
      by (simp add: frame_header_def push_flat_def flat_ParsingHeader_def new_BaseFrame_def
            flat_ExtendedLength_def flat_AwaitingPayload_def Let_def l unat_eq_0)
  next
    case b
    from b have m: "?n mod 2 ^ 32 = ?n" by simp
    have l: "unat (((if masked then 128 else 0) OR (126 :: byte)) AND 127) = 126" by simp
    from b u16[of "length d"] show ?thesis
      unfolding m
      by (simp add: frame_header_def push_flat_def flat_ParsingHeader_def new_BaseFrame_def
            flat_ExtendedLength_def flat_AwaitingPayload_def Let_def l unat_eq_0)
  next
    case c
    have l: "unat (((if masked then 128 else 0) OR (127 :: byte)) AND 127) = 127" by simp
    from c u32_mod[of "length d"] show ?thesis
      by (simp add: frame_header_def push_flat_def flat_ParsingHeader_def new_BaseFrame_def
            flat_ExtendedLength_def flat_AwaitingPayload_def Let_def l unat_eq_0)
  qed
qed


lemma length_allocUnsafe: "length (allocUnsafe n mem) = n"
  by (simp add: allocUnsafe_def)



section \<open>Evaluating the decoder and the encoder on given bytes\<close>

lemmas decode_defs = push_def push_ParsingHeader_def push_ExtendedLength_def
  push_AwaitingPayload_def joinInto_def join_def take'_def forEach_def joinInto_fn_def
  join_fn_def advance_def write'_def module_init_def new_BaseFrame_def allocUnsafe_def
  Buffer_copy_def at_index_def get_length_def success_def upt_rec readUInt32BE_def
  readUInt16BE_def

lemmas encode_defs = outbound_bytes_def new_OutboundFrame_def prepare_def Buffer_from_def
  Buffer_copy_def FrameMask_def FrameMask_loop.simps store_def ToInt32_def allocUnsafe_def
  upt_rec mask_at_def Let_def

section \<open>Decoding: scenarios\<close>

text \<open>
  C9. The seven bytes \<open>81 05 48 65 6C 6C 6F\<close>, written as one chunk into the empty
  queue and pushed into a new frame (whose header buffer is ten bytes that are not
  initialised), give one finalized frame with \<open>fin\<close> set, opcode 1 and the five bytes
  of "Hello" as its data; the queue is empty again afterwards, with all seven bytes
  used, and a new frame pushed on it finds nothing more.
\<close>

theorem small_text_frame_decode:
  "push (new_BaseFrame (allocUnsafe 10 mem)) bufferList
     (snd (write' bufferList [0x81, 0x05, 0x48, 0x65, 0x6C, 0x6C, 0x6F] module_init)) mem'
   = Inr (True,
          \<lparr>frameHeader = 0x81 # 0x05 # drop 2 (allocUnsafe 10 mem), state = Finalized,
           firstByte = Some 0x81, secondByte = Some 0x05, fin = True, opcode = 1,
           length' = 5, data = Some (Buffer_from ''Hello'')\<rparr>,
          module_init)
   \<and> get_length bufferList
         (snd (write' bufferList [0x81, 0x05, 0x48, 0x65, 0x6C, 0x6C, 0x6F] module_init)) = 7
   \<and> get_length bufferList module_init = 0
   \<and> push (new_BaseFrame (allocUnsafe 10 mem)) bufferList module_init mem'
       = Inr (False, new_BaseFrame (allocUnsafe 10 mem), module_init)"
  by (simp add: decode_defs Buffer_from_def)


section \<open>Close codes: what is accepted\<close>

text \<open>
  C4. \<open>validateCloseCode\<close> returns \<open>true\<close> for 1000 to 1003, for 1007 to 1015 and for
  every code from 3000 up to but not including 5000. It returns a message, not \<open>true\<close>,
  for 1004, 1005 and 1006, for every code from 1016 up to 2999, for every code from 0
  up to 999 and for every code from 5000 on.
\<close>

theorem validateCloseCode_ranges:
  "(\<forall>c \<in> {1000, 1001, 1002, 1003, 1007, 1008, 1009, 1010, 1011, 1012, 1013, 1014, 1015}
          \<union> {3000..<5000}.
      validateCloseCode (Number c) = Valid)
   \<and> (\<forall>c \<in> {1004, 1005, 1006} \<union> {1016..<2000} \<union> {2000..<3000} \<union> {0..<1000} \<union> {5000..}.
      validateCloseCode (Number c) \<noteq> Valid)"
  by (auto simp: validateCloseCode_def)

theorem validateCloseCode_ranges_witness:
  "validateCloseCode (Number 1000) = Valid \<and> validateCloseCode (Number 1015) = Valid
   \<and> validateCloseCode (Number 3000) = Valid \<and> validateCloseCode (Number 4999) = Valid
   \<and> validateCloseCode (Number 1005) \<noteq> Valid \<and> validateCloseCode (Number 1016) \<noteq> Valid
   \<and> validateCloseCode (Number 2500) \<noteq> Valid \<and> validateCloseCode (Number 0) \<noteq> Valid
   \<and> validateCloseCode (Number 999) \<noteq> Valid \<and> validateCloseCode (Number 5000) \<noteq> Valid"
  using validateCloseCode_ranges by simp


section \<open>Decoding: the order of arrival\<close>

text \<open>
  The chunks against the one chunk, for any stream: a stream is cut into chunks, none
  of them empty, and the chunks are written into the empty queue one at a time, the frame
  being pushed after each. Whenever the whole stream, written as one chunk and pushed
  once, finalizes a frame, the chunks leave the very same frame, finalized, and as many
  unread bytes in the queue.
\<close>

lemma feed_as_one_chunk:
  assumes "chunks \<noteq> []" "[] \<notin> set chunks"
    and "push (new_BaseFrame (allocUnsafe 10 hdr)) bufferList (snd (write' bufferList (concat chunks) module_init)) mem
         = Inr (True, F, m1)"
  shows "\<exists>m2. feed chunks (new_BaseFrame (allocUnsafe 10 hdr)) bufferList module_init mem'
                = Inr (F, m2)
              \<and> state F = Finalized
              \<and> get_length bufferList m2 = get_length bufferList m1"
proof -
  let ?f = "new_BaseFrame (allocUnsafe 10 hdr)"
  let ?m = "snd (write' bufferList (concat chunks) module_init)"
  from assms(1,2) have ne: "concat chunks \<noteq> []" by (cases chunks) auto
  have h: "length (frameHeader ?f) = 10" by (simp add: new_BaseFrame_def length_allocUnsafe)
  from write'_content[OF queue_ok_module_init(1) ne, of bufferList]
  have w: "queue_ok ?m" "content ?m = concat chunks" by (simp_all add: queue_ok_module_init)
  obtain r f1 xs1 where s: "push_flat ?f (concat chunks) = (r, f1, xs1)"
    by (cases "push_flat ?f (concat chunks)")
  from push_flat_refines[OF w(1) h, of r f1 xs1 bufferList mem] s w(2) assms(3)
  obtain e: "r = True" "f1 = F" and m1: "queue_ok m1" "content m1 = xs1" by auto
  from s e have "push_flat ?f (content module_init @ concat chunks) = (True, F, xs1)"
    by (simp add: queue_ok_module_init)
  from feed_push_flat[OF assms(1,2) queue_ok_module_init(1) h this, of bufferList mem']
  obtain m2 where f: "feed chunks ?f bufferList module_init mem' = Inr (F, m2)" "queue_ok m2" "content m2 = xs1"
    by blast
  from s e have "push_flat ?f (concat chunks) = (True, F, xs1)" by simp
  from push_flat_True_append[OF this, of "[]"] have "state F = Finalized" by simp
  with f m1 show ?thesis by (simp add: get_length_def queue_ok_def)
qed

text \<open>
  C2. The stream is one frame as a server sends it: the header for any first byte and
  the length of the payload, then the payload. It is cut into chunks in any way, none of
  them empty. Written as one chunk into the empty queue and pushed once, the stream
  finalizes a frame; the chunks, written one at a time with a push after each, end with
  the very same frame, finalized. Its \<open>fin\<close> and \<open>opcode\<close> are those of the first byte.
  Its data is the payload when the payload is shorter than \<open>2 ^ 32\<close> bytes; of a longer
  payload both ways keep the first \<open>length mod 2 ^ 32\<close> bytes and leave the rest unread
  in the queue (\<open>push\<close> reads the low four bytes of the 64-bit length).
\<close>

theorem feed_order_invariant:
  assumes "[] \<notin> set chunks"
    and "concat chunks = frame_header b0 False (length payload) @ payload"
  shows "\<exists>F m1 m2.
           push (new_BaseFrame (allocUnsafe 10 hdr)) bufferList
               (snd (write' bufferList (concat chunks) module_init)) mem
             = Inr (True, F, m1)
           \<and> feed chunks (new_BaseFrame (allocUnsafe 10 hdr)) bufferList module_init mem'
             = Inr (F, m2)
           \<and> state F = Finalized
           \<and> fin F = (b0 AND BinaryHelpers_Fin \<noteq> 0)
           \<and> opcode F = unat (b0 AND BinaryHelpers_OPCode)
           \<and> data F = Some (take (length payload mod 2 ^ 32) payload)
           \<and> get_length bufferList m1 = int (length payload) - int (length payload mod 2 ^ 32)
           \<and> get_length bufferList m2 = get_length bufferList m1"
proof -
  let ?f = "new_BaseFrame (allocUnsafe 10 hdr)"
  let ?m = "snd (write' bufferList (concat chunks) module_init)"
  let ?k = "length payload mod 2 ^ 32"
  from assms(2) have ne: "concat chunks \<noteq> []" by (simp add: frame_header_def Let_def)
  then have ne': "chunks \<noteq> []" by auto
  have h: "length (frameHeader ?f) = 10" by (simp add: new_BaseFrame_def length_allocUnsafe)
  from write'_content[OF queue_ok_module_init(1) ne, of bufferList]
  have w: "queue_ok ?m" "content ?m = concat chunks" by (simp_all add: queue_ok_module_init)
  from push_flat_frame[of "allocUnsafe 10 hdr" b0 False payload] obtain F where
    F: "push_flat ?f (concat chunks) = (True, F, drop ?k payload)"
       "state F = Finalized" "fin F = (b0 AND BinaryHelpers_Fin \<noteq> 0)"
       "opcode F = unat (b0 AND BinaryHelpers_OPCode)" "data F = Some (take ?k payload)"
    unfolding assms(2) by blast
  from F(1) have "push_flat ?f (content ?m) = (True, F, drop ?k payload)" by (simp only: w(2))
  from push_flat_refines[OF w(1) h this, of bufferList mem] obtain m1 where
    m1: "push ?f bufferList ?m mem = Inr (True, F, m1)" "queue_ok m1" "content m1 = drop ?k payload"
    by blast
  from feed_as_one_chunk[OF ne' assms(1) m1(1), of mem'] obtain m2 where
    m2: "feed chunks ?f bufferList module_init mem' = Inr (F, m2)"
        "get_length bufferList m2 = get_length bufferList m1"
    by blast
  have "?k \<le> length payload" by simp
  with m1(2,3) have "get_length bufferList m1 = int (length payload) - int ?k"
    by (simp add: get_length_def queue_ok_def del: mod_less_eq_dividend)
  with m1(1) m2 F(2-5) show ?thesis by blast
qed

text \<open>
  C2 on two frames: a text frame of 126 bytes, whose length stands in 16 bits, in four chunks,
  and a binary frame of 65536 bytes, whose length stands in 64 bits, in four chunks that
  cut the header twice.
\<close>

theorem feed_order_invariant_witness:
  "(\<exists>F m1 m2.
      push (new_BaseFrame (allocUnsafe 10 (\<lambda>_. 0))) (BufferList 0)
          (snd (write' (BufferList 0)
                  (concat [[0x81], [0x7E, 0x00], 0x7E # replicate 100 0x61, replicate 26 0x61])
                  module_init)) (\<lambda>_. 0)
        = Inr (True, F, m1)
      \<and> feed [[0x81], [0x7E, 0x00], 0x7E # replicate 100 0x61, replicate 26 0x61]
            (new_BaseFrame (allocUnsafe 10 (\<lambda>_. 0))) (BufferList 0) module_init (\<lambda>_. 0)
        = Inr (F, m2)
      \<and> state F = Finalized \<and> fin F \<and> opcode F = OPCodes_TextMessage
      \<and> data F = Some (replicate 126 0x61)
      \<and> get_length (BufferList 0) m1 = 0 \<and> get_length (BufferList 0) m2 = 0)
   \<and> (\<exists>F m1 m2.
      push (new_BaseFrame (allocUnsafe 10 (\<lambda>_. 0))) (BufferList 0)
          (snd (write' (BufferList 0)
                  (concat [[0x82], [0x7F, 0, 0, 0, 0], [0, 1, 0, 0, 0x62, 0x62],
                           replicate 65534 0x62])
                  module_init)) (\<lambda>_. 0)
        = Inr (True, F, m1)
      \<and> feed [[0x82], [0x7F, 0, 0, 0, 0], [0, 1, 0, 0, 0x62, 0x62], replicate 65534 0x62]
            (new_BaseFrame (allocUnsafe 10 (\<lambda>_. 0))) (BufferList 0) module_init (\<lambda>_. 0)
        = Inr (F, m2)
      \<and> state F = Finalized \<and> fin F \<and> opcode F = OPCodes_BinaryMessage
      \<and> data F = Some (replicate 65536 0x62)
      \<and> get_length (BufferList 0) m1 = 0 \<and> get_length (BufferList 0) m2 = 0)"
proof (rule conjI)
  have r: "replicate 126 (0x61 :: byte) = replicate 100 0x61 @ replicate 26 0x61"
    by (simp add: replicate_add[symmetric])
  have a: "[] \<notin> set [[0x81], [0x7E, 0x00], 0x7E # replicate 100 0x61, replicate 26 (0x61 :: byte)]"
    by simp
  have b: "concat [[0x81], [0x7E, 0x00], 0x7E # replicate 100 0x61, replicate 26 (0x61 :: byte)]
           = frame_header 0x81 False (length (replicate 126 (0x61 :: byte))) @ replicate 126 0x61"
    by (simp add: frame_header_def r)
  from feed_order_invariant[OF a b, of "\<lambda>_. 0" "BufferList 0" "\<lambda>_. 0" "\<lambda>_. 0"]
  obtain F m1 m2 where
    p: "push (new_BaseFrame (allocUnsafe 10 (\<lambda>_. 0))) (BufferList 0)
         (snd (write' (BufferList 0)
                 (concat [[0x81], [0x7E, 0x00], 0x7E # replicate 100 0x61, replicate 26 0x61])
                 module_init)) (\<lambda>_. 0)
       = Inr (True, F, m1)"
    and f: "feed [[0x81], [0x7E, 0x00], 0x7E # replicate 100 0x61, replicate 26 0x61]
           (new_BaseFrame (allocUnsafe 10 (\<lambda>_. 0))) (BufferList 0) module_init (\<lambda>_. 0)
       = Inr (F, m2)"
    and s: "state F = Finalized"
    and i: "fin F = ((0x81 :: byte) AND BinaryHelpers_Fin \<noteq> 0)"
    and c: "opcode F = unat ((0x81 :: byte) AND BinaryHelpers_OPCode)"
    and d: "data F = Some (take (length (replicate 126 (0x61 :: byte)) mod 2 ^ 32)
                             (replicate 126 0x61))"
    and l1: "get_length (BufferList 0) m1
             = int (length (replicate 126 (0x61 :: byte)))
               - int (length (replicate 126 (0x61 :: byte)) mod 2 ^ 32)"
    and l2: "get_length (BufferList 0) m2 = get_length (BufferList 0) m1"
    by blast
  from i have i': "fin F" by simp
  from c have c': "opcode F = OPCodes_TextMessage" by simp
  from d have d': "data F = Some (replicate 126 0x61)" by simp
  from l1 have l1': "get_length (BufferList 0) m1 = 0" by simp
  from l2 l1' have l2': "get_length (BufferList 0) m2 = 0" by simp
  from p f s i' c' d' l1' l2'
  show "\<exists>F m1 m2.
      push (new_BaseFrame (allocUnsafe 10 (\<lambda>_. 0))) (BufferList 0)
          (snd (write' (BufferList 0)
                  (concat [[0x81], [0x7E, 0x00], 0x7E # replicate 100 0x61, replicate 26 0x61])
                  module_init)) (\<lambda>_. 0)
        = Inr (True, F, m1)
      \<and> feed [[0x81], [0x7E, 0x00], 0x7E # replicate 100 0x61, replicate 26 0x61]
            (new_BaseFrame (allocUnsafe 10 (\<lambda>_. 0))) (BufferList 0) module_init (\<lambda>_. 0)
        = Inr (F, m2)
      \<and> state F = Finalized \<and> fin F \<and> opcode F = OPCodes_TextMessage
      \<and> data F = Some (replicate 126 0x61)
      \<and> get_length (BufferList 0) m1 = 0 \<and> get_length (BufferList 0) m2 = 0"
    by blast
next
  have r: "replicate 65536 (0x62 :: byte) = 0x62 # 0x62 # replicate 65534 0x62"
  proof -
    have "replicate 65536 (0x62 :: byte) = replicate 2 0x62 @ replicate 65534 0x62"
      by (simp add: replicate_add[symmetric])
    then show ?thesis by (simp add: numeral_2_eq_2)
  qed
  have a: "[] \<notin> set [[0x82], [0x7F, 0, 0, 0, 0], [0, 1, 0, 0, 0x62, 0x62],
                        replicate 65534 (0x62 :: byte)]"
    by simp
  have b: "concat [[0x82], [0x7F, 0, 0, 0, 0], [0, 1, 0, 0, 0x62, 0x62],
                   replicate 65534 (0x62 :: byte)]
           = frame_header 0x82 False (length (replicate 65536 (0x62 :: byte)))
             @ replicate 65536 0x62"
    by (simp add: frame_header_def r)
  from feed_order_invariant[OF a b, of "\<lambda>_. 0" "BufferList 0" "\<lambda>_. 0" "\<lambda>_. 0"]
  obtain F m1 m2 where
    p: "push (new_BaseFrame (allocUnsafe 10 (\<lambda>_. 0))) (BufferList 0)
         (snd (write' (BufferList 0)
                 (concat [[0x82], [0x7F, 0, 0, 0, 0], [0, 1, 0, 0, 0x62, 0x62],
                          replicate 65534 0x62])
                 module_init)) (\<lambda>_. 0)
       = Inr (True, F, m1)"
    and f: "feed [[0x82], [0x7F, 0, 0, 0, 0], [0, 1, 0, 0, 0x62, 0x62], replicate 65534 0x62]
           (new_BaseFrame (allocUnsafe 10 (\<lambda>_. 0))) (BufferList 0) module_init (\<lambda>_. 0)
       = Inr (F, m2)"
    and s: "state F = Finalized"
    and i: "fin F = ((0x82 :: byte) AND BinaryHelpers_Fin \<noteq> 0)"
    and c: "opcode F = unat ((0x82 :: byte) AND BinaryHelpers_OPCode)"
    and d: "data F = Some (take (length (replicate 65536 (0x62 :: byte)) mod 2 ^ 32)
                             (replicate 65536 0x62))"
    and l1: "get_length (BufferList 0) m1
             = int (length (replicate 65536 (0x62 :: byte)))
               - int (length (replicate 65536 (0x62 :: byte)) mod 2 ^ 32)"
    and l2: "get_length (BufferList 0) m2 = get_length (BufferList 0) m1"
    by blast
  from i have i': "fin F" by simp
  from c have c': "opcode F = OPCodes_BinaryMessage" by simp
  from d have d': "data F = Some (replicate 65536 0x62)" by simp
  from l1 have l1': "get_length (BufferList 0) m1 = 0" by simp
  from l2 l1' have l2': "get_length (BufferList 0) m2 = 0" by simp
  from p f s i' c' d' l1' l2'
  show "\<exists>F m1 m2.
      push (new_BaseFrame (allocUnsafe 10 (\<lambda>_. 0))) (BufferList 0)
          (snd (write' (BufferList 0)
                  (concat [[0x82], [0x7F, 0, 0, 0, 0], [0, 1, 0, 0, 0x62, 0x62],
                           replicate 65534 0x62])
                  module_init)) (\<lambda>_. 0)
        = Inr (True, F, m1)
      \<and> feed [[0x82], [0x7F, 0, 0, 0, 0], [0, 1, 0, 0, 0x62, 0x62], replicate 65534 0x62]
            (new_BaseFrame (allocUnsafe 10 (\<lambda>_. 0))) (BufferList 0) module_init (\<lambda>_. 0)
        = Inr (F, m2)
      \<and> state F = Finalized \<and> fin F \<and> opcode F = OPCodes_BinaryMessage
      \<and> data F = Some (replicate 65536 0x62)
      \<and> get_length (BufferList 0) m1 = 0 \<and> get_length (BufferList 0) m2 = 0"
    by blast
qed

text \<open>
  The chunks must not be empty. \<open>forEach\<close> returns at once when the first buffer of the
  chain has no unread byte, and an empty chunk written into the empty queue is such a
  buffer: the bytes written behind it are counted by \<open>length\<close> but are not read. Here
  the header comes first, then an empty chunk, then the payload "Hello": the frame is
  finalized with five bytes of the memory that \<open>take\<close> has allocated.
\<close>

lemma feed_empty_chunk:
  "feed [[0x81, 0x05], [], [0x48, 0x65, 0x6C, 0x6C, 0x6F]]
     (new_BaseFrame (allocUnsafe 10 hdr)) bufferList module_init mem
   = Inr (\<lparr>frameHeader = 0x81 # 0x05 # drop 2 (allocUnsafe 10 hdr), state = Finalized,
           firstByte = Some 0x81, secondByte = Some 0x05, fin = True, opcode = 1,
           length' = 5, data = Some (allocUnsafe 5 mem)\<rparr>,
          module_init)"
  by (simp add: decode_defs)


section \<open>Encoding and decoding again\<close>

text \<open>
  C3, as the claim has it: the frame is prepared, the mask is undone on the payload with
  the key of the frame, and the bytes that result go through the decoder. For opcode 1,
  the payload "Hi" and the key 37 FA 21 3D they are 81 82 37 FA 21 3D 48 69, the four key
  bytes still between the header and the payload. The decoder knows no key: it takes the
  two bytes behind the header, 37 FA, for the payload, and leaves four bytes in the queue.
  The frame it finalizes does not have the payload "Hi".
\<close>

theorem round_trip_with_the_key_left_in:
  "outbound_bytes OPCodes_TextMessage (Buffer_from ''Hi'') 1005 of_nat 0x37 0xFA 0x21 0x3D
     = Inr [0x81, 0x82, 0x37, 0xFA, 0x21, 0x3D, 0x7F, 0x93]
   \<and> unmask_payload_region [0x81, 0x82, 0x37, 0xFA, 0x21, 0x3D, 0x7F, 0x93]
     = [0x81, 0x82, 0x37, 0xFA, 0x21, 0x3D, 0x48, 0x69]
   \<and> push (new_BaseFrame (allocUnsafe 10 of_nat)) (BufferList 0)
         (snd (write' (BufferList 0) [0x81, 0x82, 0x37, 0xFA, 0x21, 0x3D, 0x48, 0x69]
                 module_init))
         of_nat
     = Inr (True,
            \<lparr>frameHeader = 0x81 # 0x82 # drop 2 (allocUnsafe 10 of_nat), state = Finalized,
             firstByte = Some 0x81, secondByte = Some 0x82, fin = True,
             opcode = OPCodes_TextMessage, length' = 2, data = Some [0x37, 0xFA]\<rparr>,
            \<lparr>bl_head = [[0x81, 0x82, 0x37, 0xFA, 0x21, 0x3D, 0x48, 0x69]], bl_length = 4,
             bl_offset = 4\<rparr>)
   \<and> [0x37, 0xFA] \<noteq> Buffer_from ''Hi''"
  by (simp add: encode_defs decode_defs unmask_payload_region_def xor_key_def)

text \<open>
  C3, amended: the peer also takes the four key bytes out of the stream. For each of the
  opcodes TextMessage, BinaryMessage, Ping and Pong and every payload of at most \<open>2 ^ 31\<close>
  bytes: the constructor of \<open>OutboundFrame\<close> succeeds; when the frame is prepared with
  any four key bytes, the peer has undone the mask on the payload with the key it finds
  in the frame and has taken the key out, and the bytes that result are written into the
  empty queue, a new frame pushed on the queue is finalized with the same opcode and with
  the payload as its data, byte for byte, and no byte is left in the queue.
\<close>

theorem encode_decode_round_trip:
  assumes "opc \<in> {OPCodes_TextMessage, OPCodes_BinaryMessage, OPCodes_Ping, OPCodes_Pong}"
    and "length payload \<le> 2 ^ 31"
  shows "\<exists>out F m.
           new_OutboundFrame opc payload closeCode mem = Inr out
           \<and> push (new_BaseFrame (allocUnsafe 10 mem')) bufferList
                 (snd (write' bufferList (fake_unmasking_peer (fst (prepare out r0 r1 r2 r3)))
                         module_init)) mem''
               = Inr (True, F, m)
           \<and> state F = Finalized \<and> opcode F = opc \<and> data F = Some payload
           \<and> get_length bufferList m = 0"
proof -
  let ?H = "client_header opc (length payload)"
  let ?f = "new_BaseFrame (allocUnsafe 10 mem')"
  from assms(1) have opc: "opc \<noteq> OPCodes_SocketClose" "opc < 16" by auto
  from assms(2) have n: "length payload mod 2 ^ 32 = length payload" by simp
  from new_OutboundFrame_frame[OF opc(1), of payload closeCode mem] obtain junk where
    j: "length junk = 4"
    and out: "new_OutboundFrame opc payload closeCode mem
       = Inr \<lparr>frame = ?H @ junk @ payload, header = length ?H, offset = length ?H + 4, mask' = None\<rparr>"
    by blast
  let ?out = "\<lparr>frame = ?H @ junk @ payload, header = length ?H, offset = length ?H + 4, mask' = None\<rparr>"
  let ?stream = "fake_unmasking_peer (fst (prepare ?out r0 r1 r2 r3))"
  have st: "?stream = ?H @ payload"
    using peer_stream[of "[r0, r1, r2, r3]" ?H opc payload] by (simp add: prepare_frame[OF j])
  then have ne: "?stream \<noteq> []" by (simp add: client_header_def)
  from push_flat_frame[of "allocUnsafe 10 mem'" "128 OR of_nat opc" True payload] obtain F where
    F: "push_flat ?f (?H @ payload) = (True, F, [])"
       "state F = Finalized" "opcode F = unat ((128 OR of_nat opc :: byte) AND BinaryHelpers_OPCode)"
       "data F = Some payload"
    unfolding n client_header_frame_header by auto
  from F(3) op4[OF opc(2)] have o: "opcode F = opc" by simp
  let ?m = "snd (write' bufferList ?stream module_init)"
  from write'_content[OF queue_ok_module_init(1) ne, of bufferList]
  have w: "queue_ok ?m" "content ?m = ?stream" by (simp_all add: queue_ok_module_init)
  have h: "length (frameHeader ?f) = 10" by (simp add: new_BaseFrame_def length_allocUnsafe)
  from F(1) have "push_flat ?f ?stream = (True, F, [])" by (simp only: st)
  then have "push_flat ?f (content ?m) = (True, F, [])" by (simp only: w(2))
  from push_flat_refines[OF w(1) h this, of bufferList mem''] obtain m' where
    "push ?f bufferList ?m mem'' = Inr (True, F, m')" "queue_ok m'" "content m' = []"
    by blast
  with out F(2,4) o show ?thesis by (auto simp: get_length_def queue_ok_def)
qed

theorem encode_decode_round_trip_witness:
  "\<exists>out F m.
     new_OutboundFrame OPCodes_TextMessage (Buffer_from ''Hi'') 1005 (\<lambda>_. 0) = Inr out
     \<and> push (new_BaseFrame (allocUnsafe 10 (\<lambda>_. 0))) (BufferList 0)
           (snd (write' (BufferList 0)
                   (fake_unmasking_peer (fst (prepare out 0x37 0xFA 0x21 0x3D))) module_init))
           (\<lambda>_. 0)
         = Inr (True, F, m)
     \<and> state F = Finalized \<and> opcode F = OPCodes_TextMessage
     \<and> data F = Some (Buffer_from ''Hi'') \<and> get_length (BufferList 0) m = 0"
proof -
  have "OPCodes_TextMessage \<in> {OPCodes_TextMessage, OPCodes_BinaryMessage, OPCodes_Ping, OPCodes_Pong}"
    and "length (Buffer_from ''Hi'') \<le> 2 ^ 31"
    by (simp_all add: Buffer_from_def)
  from encode_decode_round_trip[OF this] show ?thesis .
qed

text \<open>
  The bytes on the way, for "Hi": what \<open>prepare\<close> hands to the socket, and what the peer
  makes of them.
\<close>

lemma fake_unmasking_peer_Hi:
  "fake_unmasking_peer [0x81, 0x82, 0x37, 0xFA, 0x21, 0x3D, 0x7F, 0x93] = [0x81, 0x82, 0x48, 0x69]"
  by (simp add: fake_unmasking_peer_def unmask_payload_region_def xor_key_def upt_rec mask_at_def)


section \<open>Encoding: the text frame "Hi"\<close>

text \<open>
  C8, as the claim has it: opcode 1 and the payload "Hi" under the key 37 FA 21 3D would
  give the bytes 81 82 37 FA 21 3D 7F 9F. They do not: the last byte is \<open>'i' XOR 0xFA\<close>,
  which is 93 (9F is \<open>'e' XOR 0xFA\<close>, of the payload "Hello").
\<close>

theorem text_encode_counterexample:
  "outbound_bytes OPCodes_TextMessage (Buffer_from ''Hi'') 1005 of_nat 0x37 0xFA 0x21 0x3D
   \<noteq> Inr [0x81, 0x82, 0x37, 0xFA, 0x21, 0x3D, 0x7F, 0x9F]"
  by (simp add: encode_defs)

text \<open>
  C8, amended: opcode 1 and the payload "Hi" under the key 37 FA 21 3D give exactly the
  bytes 81 82 37 FA 21 3D 7F 93, whatever the memory of the new buffer held: byte 0 is
  \<open>0x80 | opcode\<close>, byte 1 is \<open>0x80 | length\<close>, bytes 2 to 5 are the key, and payload
  byte \<open>i\<close> is XORed with \<open>key[i % 4]\<close>.
\<close>

theorem text_encode:
  "outbound_bytes OPCodes_TextMessage (Buffer_from ''Hi'') 1005 mem 0x37 0xFA 0x21 0x3D
     = Inr [0x81, 0x82, 0x37, 0xFA, 0x21, 0x3D, 0x7F, 0x93]
   \<and> [0x81, 0x82, 0x37, 0xFA, 0x21, 0x3D, 0x7F, 0x93]
     = [0x80 OR of_nat OPCodes_TextMessage, 0x80 OR of_nat (length (Buffer_from ''Hi''))]
       @ [0x37, 0xFA, 0x21, 0x3D]
       @ xor_key [0x37, 0xFA, 0x21, 0x3D] (Buffer_from ''Hi'')"
  by (simp add: encode_defs xor_key_def)


section \<open>One queue for all \<open>BufferList\<close> objects\<close>

text \<open>
  C10. The chain of buffers, the length and the offset are variables of the module:
  for any two \<open>BufferList\<close> objects \<open>a\<close> and \<open>b\<close>, after \<open>a.write(chunk)\<close> the length
  that \<open>b\<close> reports is the length that \<open>a\<close> reports, and both have grown by the length
  of the chunk; creating an object changes none of the variables, and the new object
  reports a length that is not 0 whenever another object does.
\<close>

theorem instances_share_the_queue:
  "get_length b (snd (write' a chunk m)) = get_length a (snd (write' a chunk m))
   \<and> get_length a (snd (write' a chunk m)) = get_length a m + int (length chunk)
   \<and> get_length b (snd (write' a chunk m)) = get_length b m + int (length chunk)
   \<and> snd (new_BufferList n m) = m
   \<and> (get_length a m \<noteq> 0 \<longrightarrow> get_length (fst (new_BufferList n m)) (snd (new_BufferList n m)) \<noteq> 0)"
  by (simp add: get_length_def write'_def new_BufferList_def)

theorem instances_share_the_queue_witness:
  "get_length (BufferList 0) (snd (write' (BufferList 0) [1, 2, 3] module_init)) \<noteq> 0
   \<and> get_length (fst (new_BufferList 1 (snd (write' (BufferList 0) [1, 2, 3] module_init))))
        (snd (new_BufferList 1 (snd (write' (BufferList 0) [1, 2, 3] module_init)))) = 3"
proof -
  have "get_length (BufferList 0) (snd (write' (BufferList 0) [1, 2, 3] module_init)) = 3"
    by (simp add: get_length_def write'_def module_init_def)
  with instances_share_the_queue[of "fst (new_BufferList 1 (snd (write' (BufferList 0) [1, 2, 3] module_init)))"
      "BufferList 0" "[1, 2, 3]" module_init 1]
    instances_share_the_queue[of "BufferList 0" "BufferList 0" "[]" "snd (write' (BufferList 0) [1, 2, 3] module_init)" 1]
  show ?thesis by (simp add: get_length_def)
qed


section \<open>The 64-bit length\<close>

text \<open>
  What the block for \<open>Awaiting64Bit\<close> does when the queue holds eight bytes or more: it
  takes the eight bytes off the queue, goes to \<open>AwaitingPayload\<close>, and sets the length
  to the number in the last four of them, which is the 64-bit number modulo \<open>2 ^ 32\<close>
  (\<open>readUInt32BE(6)\<close> reads bytes 6 to 9 of the header buffer).
\<close>

lemma take8: "8 \<le> length xs \<Longrightarrow> take 8 xs = [xs ! 0, xs ! 1, xs ! 2, xs ! 3, xs ! 4, xs ! 5, xs ! 6, xs ! 7]"
  by (rule nth_equalityI) (auto simp: nth_Cons' less_Suc_eq_0_disj numeral_eq_Suc)

lemma be_value8_mod:
  fixes b0 :: byte
  shows "be_value [b0, b1, b2, b3, b4, b5, b6, b7] mod 2 ^ 32
         = unat b4 * 2 ^ 24 + unat b5 * 2 ^ 16 + unat b6 * 2 ^ 8 + unat b7"
proof -
  have b: "unat b4 < 256" "unat b5 < 256" "unat b6 < 256" "unat b7 < 256"
    using unsigned_less[of b4, where ?'a = nat] unsigned_less[of b5, where ?'a = nat]
      unsigned_less[of b6, where ?'a = nat] unsigned_less[of b7, where ?'a = nat] by simp_all
  define lo where "lo = unat b4 * 2 ^ 24 + unat b5 * 2 ^ 16 + unat b6 * 2 ^ 8 + unat b7"
  define hi where "hi = unat b0 * 2 ^ 24 + unat b1 * 2 ^ 16 + unat b2 * 2 ^ 8 + unat b3"
  have eq: "be_value [b0, b1, b2, b3, b4, b5, b6, b7] = hi * 4294967296 + lo"
    by (simp add: be_value_def hi_def lo_def)
  from b have "lo < 4294967296" by (simp add: lo_def)
  then have "(hi * 4294967296 + lo) mod 4294967296 = lo" by simp
  then have "be_value [b0, b1, b2, b3, b4, b5, b6, b7] mod 2 ^ 32 = lo" by (simp add: eq)
  then show ?thesis by (simp only: lo_def)
qed

lemma push_ExtendedLength_Awaiting64Bit:
  assumes "queue_ok m" "length (frameHeader f) = 10" "state f = Awaiting64Bit"
    and "8 \<le> length (content m)"
  shows "\<exists>f' m'. push_ExtendedLength f bufferList m = Inr (None, f', m')
           \<and> state f' = AwaitingPayload
           \<and> length' f' = be_value (take 8 (content m)) mod 2 ^ 32
           \<and> content m' = drop 8 (content m)
           \<and> get_length bufferList m' = get_length bufferList m - 8"
proof -
  let ?xs = "content m"
  let ?f' = "f\<lparr>frameHeader := take 2 (frameHeader f) @ take 8 ?xs @ drop 10 (frameHeader f),
                length' := unat (?xs ! 4) * 2 ^ 24 + unat (?xs ! 5) * 2 ^ 16
                           + unat (?xs ! 6) * 2 ^ 8 + unat (?xs ! 7),
                state := AwaitingPayload\<rparr>"
  from assms(3,4) have "flat_ExtendedLength f ?xs = (None, ?f', drop 8 ?xs)"
    by (simp add: flat_ExtendedLength_def)
  from push_ExtendedLength_flat[OF assms(1,2) this, of bufferList] obtain m' where
    m': "push_ExtendedLength f bufferList m = Inr (None, ?f', m')" "queue_ok m'"
        "content m' = drop 8 ?xs"
    by blast
  have "length' ?f' = be_value (take 8 ?xs) mod 2 ^ 32"
    by (simp only: take8[OF assms(4)] be_value8_mod) simp
  moreover have "get_length bufferList m' = get_length bufferList m - 8"
    using m'(2,3) assms(1,4) by (simp add: get_length_def queue_ok_def)
  ultimately show ?thesis using m' by (intro exI[of _ ?f'] exI[of _ m']) simp
qed

text \<open>
  C1 at a length of \<open>2 ^ 32\<close>. The header 82 7F leaves a new frame in \<open>Awaiting64Bit\<close>;
  the eight bytes 00 00 00 01 00 00 00 00 are then taken off the queue, but the length
  becomes 0 and not \<open>2 ^ 32\<close>, and the same call of \<open>push\<close> finalizes the frame with
  an empty payload.
\<close>

theorem extended_length_high_bytes_dropped:
  "push (new_BaseFrame (allocUnsafe 10 mem)) bufferList
     (snd (write' bufferList [0x82, 0x7F] module_init)) mem'
   = Inr (False,
          \<lparr>frameHeader = 0x82 # 0x7F # drop 2 (allocUnsafe 10 mem), state = Awaiting64Bit,
           firstByte = Some 0x82, secondByte = Some 0x7F, fin = True,
           opcode = OPCodes_BinaryMessage, length' = 127, data = None\<rparr>,
          module_init)
   \<and> push \<lparr>frameHeader = 0x82 # 0x7F # drop 2 (allocUnsafe 10 mem), state = Awaiting64Bit,
           firstByte = Some 0x82, secondByte = Some 0x7F, fin = True,
           opcode = OPCodes_BinaryMessage, length' = 127, data = None\<rparr>
       bufferList (snd (write' bufferList [0, 0, 0, 1, 0, 0, 0, 0] module_init)) mem'
     = Inr (True,
          \<lparr>frameHeader = [0x82, 0x7F, 0, 0, 0, 1, 0, 0, 0, 0], state = Finalized,
           firstByte = Some 0x82, secondByte = Some 0x7F, fin = True,
           opcode = OPCodes_BinaryMessage, length' = 0, data = Some []\<rparr>,
          module_init)"
  by (simp add: decode_defs)


section \<open>The code and the reason of a close frame\<close>

lemma push_True_data:
  assumes "queue_ok m" "length (frameHeader f) = 10" "push f bufferList m mem = Inr (True, F, m')"
  shows "state F = Finalized \<and> (\<exists>d. data F = Some d \<and> length d = length' F)"
proof -
  obtain r f1 xs1 where s: "push_flat f (content m) = (r, f1, xs1)"
    by (cases "push_flat f (content m)")
  from push_flat_refines[OF assms(1,2) s, of bufferList mem] assms(3)
  have e: "r = True" "f1 = F" by auto
  obtain r1 g1 ys1 where s1: "flat_ParsingHeader f (content m) = (r1, g1, ys1)"
    by (cases "flat_ParsingHeader f (content m)")
  obtain r2 g2 ys2 where s2: "flat_ExtendedLength g1 ys1 = (r2, g2, ys2)"
    by (cases "flat_ExtendedLength g1 ys1")
  from s e s1 flat_ParsingHeader_append(2)[of f "content m" _ g1 ys1] have r1: "r1 = None"
    by (cases r1) (auto simp: push_flat_def)
  from s e s1 s2 r1 flat_ExtendedLength_append(2)[of g1 ys1 _ g2 ys2] have r2: "r2 = None"
    by (cases r2) (auto simp: push_flat_def)
  from s e s1 s2 r1 r2 have "flat_AwaitingPayload g2 ys2 = (True, F, xs1)"
    by (simp add: push_flat_def)
  then show ?thesis by (auto simp: flat_AwaitingPayload_def split: if_splits)
qed

text \<open>
  What the class makes of a frame that \<open>push\<close> has finalized (from a consistent queue,
  with a header buffer of ten bytes; whatever its opcode). Such a frame has a payload
  of \<open>length\<close> bytes. On a payload of two bytes or more the code is the 16-bit
  big-endian number at its start, 1005 taking the place of 0, and the reason is the
  payload without its first two bytes; on a shorter payload the constructor throws.
\<close>

lemma new_CloseFrame_finalized:
  assumes "queue_ok m" "length (frameHeader f) = 10" "push f bufferList m mem = Inr (True, F, m')"
  shows "\<exists>d. data F = Some d
             \<and> new_CloseFrame F
                 = (if length d < 2 then Inl RangeError
                    else Inr \<lparr>code = (if unat (d ! 0) * 2 ^ 8 + unat (d ! 1) = 0 then 1005
                                      else unat (d ! 0) * 2 ^ 8 + unat (d ! 1)),
                              reason = drop 2 d\<rparr>)"
proof -
  from push_True_data[OF assms] obtain d where d: "data F = Some d" "length d = length' F"
    by blast
  then show ?thesis by (simp add: new_CloseFrame_def readUInt16BE_def)
qed

text \<open>
  The copy of the class behind \<open>BaseFrame\<close> in src/Frames/Frame.js gives the code 1005
  for a payload shorter than two bytes and the number at the start of the payload
  otherwise, 0 too.
\<close>

lemma new_CloseFrame_Frame_js_finalized:
  assumes "queue_ok m" "length (frameHeader f) = 10" "push f bufferList m mem = Inr (True, F, m')"
  shows "\<exists>d. data F = Some d
             \<and> new_CloseFrame_Frame_js F
                 = Inr \<lparr>code = (if length d < 2 then 1005 else unat (d ! 0) * 2 ^ 8 + unat (d ! 1)),
                        reason = drop 2 d\<rparr>"
proof -
  from push_True_data[OF assms] obtain d where d: "data F = Some d" "length d = length' F"
    by blast
  then show ?thesis by (simp add: new_CloseFrame_Frame_js_def readUInt16BE_def)
qed

text \<open>
  The two bytes 88 02 and the payload 00 00: the class gives the code 1005, not the
  number 0 that stands in the payload.
\<close>

lemma CloseFrame_code_zero:
  "push (new_BaseFrame (allocUnsafe 10 mem)) bufferList
     (snd (write' bufferList [0x88, 0x02, 0x00, 0x00] module_init)) mem'
   = Inr (True,
          \<lparr>frameHeader = 0x88 # 0x02 # drop 2 (allocUnsafe 10 mem), state = Finalized,
           firstByte = Some 0x88, secondByte = Some 0x02, fin = True,
           opcode = OPCodes_SocketClose, length' = 2, data = Some [0x00, 0x00]\<rparr>,
          module_init)
   \<and> new_CloseFrame
       \<lparr>frameHeader = 0x88 # 0x02 # drop 2 (allocUnsafe 10 mem), state = Finalized,
        firstByte = Some 0x88, secondByte = Some 0x02, fin = True,
        opcode = OPCodes_SocketClose, length' = 2, data = Some [0x00, 0x00]\<rparr>
     = Inr \<lparr>code = 1005, reason = []\<rparr>"
  by (simp add: decode_defs new_CloseFrame_def)

text \<open>
  C6 on a close frame without a payload, the two bytes 88 00. \<open>push\<close> finalizes it, with
  the Close opcode and an empty buffer as its data. The claim has the code 1005 and an
  empty reason for it. \<open>new CloseFrame(frame)\<close> throws: \<open>readUInt16BE(0)\<close> reads outside the
  empty buffer before \<open>|| 1005\<close> is reached. The copy of the class in src/Frames/Frame.js,
  which tests \<open>frame.length < 2\<close> first, gives 1005.
\<close>

theorem CloseFrame_without_payload:
  "push (new_BaseFrame (allocUnsafe 10 mem)) bufferList
     (snd (write' bufferList [0x88, 0x00] module_init)) mem'
   = Inr (True,
          \<lparr>frameHeader = 0x88 # 0x00 # drop 2 (allocUnsafe 10 mem), state = Finalized,
           firstByte = Some 0x88, secondByte = Some 0x00, fin = True,
           opcode = OPCodes_SocketClose, length' = 0, data = Some []\<rparr>,
          module_init)
   \<and> new_CloseFrame
       \<lparr>frameHeader = 0x88 # 0x00 # drop 2 (allocUnsafe 10 mem), state = Finalized,
        firstByte = Some 0x88, secondByte = Some 0x00, fin = True,
        opcode = OPCodes_SocketClose, length' = 0, data = Some []\<rparr>
     = Inl RangeError
   \<and> new_CloseFrame_Frame_js
       \<lparr>frameHeader = 0x88 # 0x00 # drop 2 (allocUnsafe 10 mem), state = Finalized,
        firstByte = Some 0x88, secondByte = Some 0x00, fin = True,
        opcode = OPCodes_SocketClose, length' = 0, data = Some []\<rparr>
     = Inr \<lparr>code = 1005, reason = []\<rparr>"
  by (simp add: decode_defs new_CloseFrame_def new_CloseFrame_Frame_js_def)


section \<open>\<open>abort\<close>\<close>

text \<open>
  On a connection whose socket is there and has not been ended, \<open>abort\<close> returns
  \<open>true\<close>, closes the connection, ends the socket, signals one close and one failure
  (to the handlers, or to the iterator), rejects the pending close, and any later
  \<open>abort\<close> returns \<open>false\<close> and changes nothing.
\<close>

lemma abort_with_socket:
  assumes "sockets_tls ws = Some tls" "\<not> ended tls"
  shows "\<exists>ws'. abort reason' code' ws = (True, ws')
           \<and> status ws' = Closed
           \<and> sockets_tls ws' = Some (tls\<lparr>ended := True\<rparr>)
           \<and> \<not> closeReject ws'
           \<and> effects ws'
               = effects ws @ (if sockets_request ws then [request_destroy] else [])
                 @ [tls_end]
                 @ [if options_asyncIterator ws
                    then onClose_CloseError code'
                           (if reason' = []
                            then (case DefaultCloseDescriptions code' of Some s \<Rightarrow> s | None \<Rightarrow> [])
                            else reason')
                    else dispatchEvent_close code'
                           (if reason' = []
                            then (case DefaultCloseDescriptions code' of Some s \<Rightarrow> s | None \<Rightarrow> [])
                            else reason'),
                    if options_asyncIterator ws then onClose_SocketError reason'
                    else dispatchEvent_failure reason']
                 @ (if closeReject ws then [closeReject_call reason'] else [])
           \<and> abort reason'' code'' ws' = (False, ws')"
  using assms
  by (simp add: abort_def endSocket_def performCloseState_def emitClose_def emitFailure_def Let_def
           del: DefaultCloseDescriptions.simps)

text \<open>
  C5 during the handshake. \<open>open\<close> has sent the request and no socket exists yet:
  \<open>abort\<close> returns \<open>true\<close>, and so does a second \<open>abort\<close>, which dispatches a second
  close event and a second failure event. The test \<open>this.sockets.tls?.ended\<close>, which
  stops a second \<open>abort\<close>, has nothing to read when there is no socket.
\<close>

theorem abort_twice_before_the_socket_exists:
  "status (snd (open_request ''dGhlIHNhbXBsZSBub25jZQ=='' (new_WebSocket False))) = Handshaking
   \<and> sockets_tls (snd (open_request ''dGhlIHNhbXBsZSBub25jZQ=='' (new_WebSocket False))) = None
   \<and> fst (abort ''WebSocket Handshake Timed out.'' 1006
            (snd (open_request ''dGhlIHNhbXBsZSBub25jZQ=='' (new_WebSocket False)))) = True
   \<and> fst (abort ''WebSocket Handshake Timed out.'' 1006
            (snd (abort ''WebSocket Handshake Timed out.'' 1006
                    (snd (open_request ''dGhlIHNhbXBsZSBub25jZQ=='' (new_WebSocket False)))))) = True
   \<and> effects (snd (abort ''WebSocket Handshake Timed out.'' 1006
            (snd (abort ''WebSocket Handshake Timed out.'' 1006
                    (snd (open_request ''dGhlIHNhbXBsZSBub25jZQ=='' (new_WebSocket False)))))))
       = [request_destroy,
          dispatchEvent_close 1006 ''WebSocket Handshake Timed out.'',
          dispatchEvent_failure ''WebSocket Handshake Timed out.'',
          dispatchEvent_close 1006 ''WebSocket Handshake Timed out.'',
          dispatchEvent_failure ''WebSocket Handshake Timed out.'']"
  by (simp add: abort_def endSocket_def performCloseState_def emitClose_def emitFailure_def Let_def
        open_request_def new_WebSocket_def)


section \<open>The handshake: the accept header\<close>

text \<open>The hash on the example of RFC 6455 and on "abc".\<close>

lemma sha1_base64_sample_nonce:
  "sha1_base64 (''dGhlIHNhbXBsZSBub25jZQ=='' @ HeaderConcatNonce) = ''s3pPLMBiTxaQ9kYGzzhZRbK+xOo=''"
  by code_simp

lemma sha1_base64_abc: "sha1_base64 ''abc'' = ''qZk+NkcGgWq6PiVxeFDCbJzQ2J0=''"
  by code_simp

lemma abort_not_Open: "status ws \<noteq> Open \<Longrightarrow> status (snd (abort reason' code' ws)) \<noteq> Open"
  by (cases "sockets_tls ws")
     (simp_all add: abort_def endSocket_def performCloseState_def emitClose_def emitFailure_def
        Let_def del: DefaultCloseDescriptions.simps)

text \<open>
  C7. For a response with status 101 whose \<open>connection\<close> header is "upgrade" and whose
  \<open>upgrade\<close> header is "websocket" (in any case of the letters), on a connection that is
  handshaking: \<open>validateHandshake\<close> returns \<open>true\<close> exactly when the
  \<open>sec-websocket-accept\<close> header is there and equals the base64 text of the SHA-1 hash
  of the nonce followed by "258EAFA5-E914-47DA-95CA-C5AB0DC85B11"; otherwise it returns
  the message of a nonce that does not match; and the handler of \<open>upgrade\<close> opens the
  connection exactly when the header matches.
\<close>

theorem validateHandshake_accept:
  assumes "statusCode response' = 101" "headers response' = Some hs"
    and "map_option toLowerCase (hs ''connection'') = Some ''upgrade''"
    and "map_option toLowerCase (hs ''upgrade'') = Some ''websocket''"
    and "status this = Handshaking"
  shows "(fst (validateHandshake response' this) = HandshakeTrue)
           = (hs ''sec-websocket-accept'' = Some (sha1_base64 (initial (nonceData this) @ HeaderConcatNonce)))
         \<and> (fst (validateHandshake response' this) = HandshakeTrue
             \<or> fst (validateHandshake response' this)
                = HandshakeMessage (NonceMismatch (sha1_base64 (initial (nonceData this) @ HeaderConcatNonce))
                                      (hs ''sec-websocket-accept'')))
         \<and> (status (on_upgrade msg response' this) = Open)
           = (hs ''sec-websocket-accept'' = Some (sha1_base64 (initial (nonceData this) @ HeaderConcatNonce)))"
proof -
  let ?expected = "sha1_base64 (initial (nonceData this) @ HeaderConcatNonce)"
  let ?actual = "hs ''sec-websocket-accept''"
  let ?this' = "this\<lparr>nonceData := (nonceData this)\<lparr>responseExpected := ?expected,
                                                      responseActual := ?actual\<rparr>\<rparr>"
  have v: "validateHandshake response' this
           = (if ?actual \<noteq> Some ?expected
              then (HandshakeMessage (NonceMismatch ?expected ?actual), ?this')
              else (HandshakeTrue, ?this'))"
    using assms(1-4) by (simp add: validateHandshake_def Let_def)
  have u: "(status (on_upgrade msg response' this) = Open) = (?actual = Some ?expected)"
  proof (cases "?actual = Some ?expected")
    case True
    then show ?thesis by (simp add: on_upgrade_def v)
  next
    case False
    have "status ?this' \<noteq> Open" using assms(5) by simp
    from abort_not_Open[OF this] False show ?thesis by (simp add: on_upgrade_def v)
  qed
  show ?thesis using u by (simp add: v)
qed

theorem validateHandshake_accept_witness:
  "fst (validateHandshake
          \<lparr>statusCode = 101,
           headers = Some [''connection'' \<mapsto> ''Upgrade'', ''upgrade'' \<mapsto> ''websocket'',
                           ''sec-websocket-accept'' \<mapsto> ''s3pPLMBiTxaQ9kYGzzhZRbK+xOo='']\<rparr>
          (snd (open_request ''dGhlIHNhbXBsZSBub25jZQ=='' (new_WebSocket False))))
   = HandshakeTrue
   \<and> status (on_upgrade (\<lambda>_. [])
          \<lparr>statusCode = 101,
           headers = Some [''connection'' \<mapsto> ''Upgrade'', ''upgrade'' \<mapsto> ''websocket'',
                           ''sec-websocket-accept'' \<mapsto> ''s3pPLMBiTxaQ9kYGzzhZRbK+xOo='']\<rparr>
          (snd (open_request ''dGhlIHNhbXBsZSBub25jZQ=='' (new_WebSocket False))))
     = Open
   \<and> fst (validateHandshake
          \<lparr>statusCode = 101,
           headers = Some [''connection'' \<mapsto> ''Upgrade'', ''upgrade'' \<mapsto> ''websocket'',
                           ''sec-websocket-accept'' \<mapsto> ''s3pPLMBiTxaQ9kYGzzhZRbK+xOo'']\<rparr>
          (snd (open_request ''dGhlIHNhbXBsZSBub25jZQ=='' (new_WebSocket False))))
     = HandshakeMessage (NonceMismatch ''s3pPLMBiTxaQ9kYGzzhZRbK+xOo=''
                           (Some ''s3pPLMBiTxaQ9kYGzzhZRbK+xOo''))"
proof -
  let ?ws = "snd (open_request ''dGhlIHNhbXBsZSBub25jZQ=='' (new_WebSocket False))"
  let ?hs = "[''connection'' \<mapsto> ''Upgrade'', ''upgrade'' \<mapsto> ''websocket'',
              ''sec-websocket-accept'' \<mapsto> ''s3pPLMBiTxaQ9kYGzzhZRbK+xOo='']"
  let ?hs' = "[''connection'' \<mapsto> ''Upgrade'', ''upgrade'' \<mapsto> ''websocket'',
               ''sec-websocket-accept'' \<mapsto> ''s3pPLMBiTxaQ9kYGzzhZRbK+xOo'']"
  have ws: "status ?ws = Handshaking" "initial (nonceData ?ws) = ''dGhlIHNhbXBsZSBub25jZQ==''"
    by (simp_all add: open_request_def new_WebSocket_def)
  have lc: "toLowerCase ''Upgrade'' = ''upgrade''" "toLowerCase ''websocket'' = ''websocket''"
    by code_simp+
  have a: "statusCode \<lparr>statusCode = 101, headers = Some ?hs\<rparr> = 101"
    "headers \<lparr>statusCode = 101, headers = Some ?hs\<rparr> = Some ?hs"
    "map_option toLowerCase (?hs ''connection'') = Some ''upgrade''"
    "map_option toLowerCase (?hs ''upgrade'') = Some ''websocket''"
    by (simp_all add: lc)
  have b: "statusCode \<lparr>statusCode = 101, headers = Some ?hs'\<rparr> = 101"
    "headers \<lparr>statusCode = 101, headers = Some ?hs'\<rparr> = Some ?hs'"
    "map_option toLowerCase (?hs' ''connection'') = Some ''upgrade''"
    "map_option toLowerCase (?hs' ''upgrade'') = Some ''websocket''"
    by (simp_all add: lc)
  note t = validateHandshake_accept[OF a ws(1), of "\<lambda>_. []", unfolded ws(2) sha1_base64_sample_nonce]
  note t' = validateHandshake_accept[OF b ws(1), of "\<lambda>_. []", unfolded ws(2) sha1_base64_sample_nonce]
  from t t' show ?thesis by auto
qed

end
